theory Spec2Isabelle
  imports Main
begin

section \<open>Data model\<close>

text \<open>
  The engine of knavigator: the object registry and the task factory of
  \<^verbatim>\<open>pkg/engine/engine.go\<close>, the driver \<^verbatim>\<open>Run\<close>, and the CheckPod task.
  Go strings are \<^typ>\<open>string\<close>; a Go \<^verbatim>\<open>error\<close> is a value of the datatype
  \<open>error\<close>, one constructor per \<^verbatim>\<open>fmt.Errorf\<close> site, carrying the arguments
  of the format string; a \<^verbatim>\<open>nil\<close> error is \<^term>\<open>None\<close>.
\<close>

datatype error =
    ClientNotSet string string
  | ParseParams string string
  | MissingRefTaskId string
  | MissingStatusAndLabels string
  | FailedToGetPod string string string
  | StatusMismatch string string string string
  | FailedToGetNode string string string string
  | MissingLabel string string string string string
  | FailedToListPods string string
  | UnexpectedObjectType string string
  | DeadlineExceeded
  | Canceled
  | UnreferencedTaskID string string
  | UnsupportedTaskType string
  | DuplicateTaskID string
  | MissingTaskID string
  | External string

text \<open>
  \<^verbatim>\<open>v1.Pod\<close> and \<^verbatim>\<open>v1.Node\<close>, restricted to the fields the engine reads:
  \<^verbatim>\<open>pod.Name\<close>, \<^verbatim>\<open>pod.Status.Phase\<close>, \<^verbatim>\<open>pod.Spec.NodeName\<close> and \<^verbatim>\<open>node.Labels\<close>.
  An \<^verbatim>\<open>interface{}\<close> handed to an event handler either holds a \<^verbatim>\<open>*v1.Pod\<close> or a
  value of another dynamic type, of which only the type name is kept.
\<close>

record Pod =
  Name :: string
  Phase :: string
  NodeName :: string

record Node =
  Labels :: "string \<rightharpoonup> string"

datatype obj = PodObj Pod | OtherObj string

definition PodRunning :: string where
  "PodRunning = ''Running''"

text \<open>
  Indexing a Go map of strings: an absent key reads as the zero value, the empty string.
\<close>

definition index_map :: "(string \<rightharpoonup> string) \<Rightarrow> string \<Rightarrow> string" where
  "index_map m k = (case m k of None \<Rightarrow> [] | Some v \<Rightarrow> v)"

text \<open>
  Modelled from the spec: the record \<^verbatim>\<open>ObjInfo\<close> is declared outside the given sources;
  the specification gives it as group/version/resource, namespace, produced object names
  and expected pod names. The engine reads \<^verbatim>\<open>info.Namespace\<close> and \<^verbatim>\<open>info.Pods\<close>.
\<close>

record ObjInfo =
  GVR :: "string \<times> string \<times> string"
  Namespace :: string
  Names :: "string list"
  Pods :: "string list"

text \<open>
  \<^verbatim>\<open>config.Task\<close>, read through \<^verbatim>\<open>cfg.ID\<close>, \<^verbatim>\<open>cfg.Type\<close> and \<^verbatim>\<open>cfg.Params\<close>. The
  parameter block is an untyped map that only the YAML library inspects, so its type is
  left open.
\<close>

record 'p Task =
  ID :: string
  Type :: string
  Params :: 'p

record BaseTask =
  taskType :: string
  taskID :: string

text \<open>
  Modelled from the spec: \<^verbatim>\<open>BaseTask.ID()\<close> is defined outside the given sources; errors
  carry the prefix \<^verbatim>\<open>taskKind/taskID\<close>.
\<close>

definition BaseTask_ID :: "BaseTask \<Rightarrow> string" where
  "BaseTask_ID b = taskType b @ ''/'' @ taskID b"

text \<open>
  \<^verbatim>\<open>checkPodTaskParams\<close>. \<^verbatim>\<open>NodeLabels\<close> is a Go map that the code only measures with
  \<^verbatim>\<open>len\<close> and iterates with \<^verbatim>\<open>range\<close>; it is kept as the list of its entries in the
  order the iteration visits them. \<^verbatim>\<open>Timeout\<close> is a \<^verbatim>\<open>time.Duration\<close>, only compared
  with zero.
\<close>

record checkPodTaskParams =
  RefTaskID :: string
  Status :: string
  NodeLabels :: "(string \<times> string) list"
  Timeout :: int

record 'k CheckPodTask =
  base :: BaseTask
  params :: checkPodTaskParams
  client :: 'k

record ('k, 'd) Eng =
  k8sClient :: "'k option"
  dynamicClient :: "'d option"
  objMap :: "string \<rightharpoonup> ObjInfo"

section \<open>Object registry\<close>

definition SetObjInfo :: "('k, 'd) Eng \<Rightarrow> string \<Rightarrow> ObjInfo \<Rightarrow> error option \<times> ('k, 'd) Eng" where
  "SetObjInfo eng tid info =
     (case objMap eng tid of
        Some _ \<Rightarrow> (Some (DuplicateTaskID tid), eng)
      | None \<Rightarrow> (None, eng\<lparr>objMap := (objMap eng)(tid \<mapsto> info)\<rparr>))"

definition GetObjInfo :: "('k, 'd) Eng \<Rightarrow> string \<Rightarrow> error + ObjInfo" where
  "GetObjInfo eng tid =
     (case objMap eng tid of
        None \<Rightarrow> Inl (MissingTaskID tid)
      | Some info \<Rightarrow> Inr info)"

section \<open>CheckPod: construction and validation\<close>

text \<open>
  \<^verbatim>\<open>validate\<close> sends the parameter block through \<^verbatim>\<open>yaml.Marshal\<close> and
  \<^verbatim>\<open>yaml.Unmarshal\<close>; the round trip belongs to the YAML library and is the
  parameter \<open>unmarshal\<close>, which yields the decoded parameters or the library's message.
  The Go method fills the task in place and returns the error; here it returns the filled
  task.
\<close>

definition validate ::
  "('p \<Rightarrow> string + checkPodTaskParams) \<Rightarrow> 'k CheckPodTask \<Rightarrow> 'p \<Rightarrow> error + 'k CheckPodTask" where
  "validate unmarshal task ps =
     (case unmarshal ps of
        Inl msg \<Rightarrow> Inl (ParseParams (BaseTask_ID (base task)) msg)
      | Inr p \<Rightarrow>
          if length (RefTaskID p) = 0 then Inl (MissingRefTaskId (BaseTask_ID (base task)))
          else if length (Status p) = 0 \<and> length (NodeLabels p) = 0
          then Inl (MissingStatusAndLabels (BaseTask_ID (base task)))
          else Inr (task\<lparr>params := p\<rparr>))"

definition zero_params :: checkPodTaskParams where
  "zero_params = \<lparr>RefTaskID = [], Status = [], NodeLabels = [], Timeout = 0\<rparr>"

definition newCheckPodTask ::
  "('p \<Rightarrow> string + checkPodTaskParams) \<Rightarrow> 'k option \<Rightarrow> 'p Task \<Rightarrow> error + 'k CheckPodTask" where
  "newCheckPodTask unmarshal cl cfg =
     (case cl of
        None \<Rightarrow> Inl (ClientNotSet (Type cfg) (ID cfg))
      | Some k \<Rightarrow>
          validate unmarshal
            \<lparr>base = \<lparr>taskType = Type cfg, taskID = ID cfg\<rparr>, params = zero_params, client = k\<rparr>
            (Params cfg))"

section \<open>Cluster API\<close>

text \<open>
  The typed Kubernetes client is an external collaborator. The engine reads the cluster
  through three calls: Get of a pod by namespace and name, List of the pods of a
  namespace, and Get of a node by name; each yields the object or the message of the
  error. Every call the engine makes is appended to a log of \<open>api_call\<close>s, which the
  functions below take and return, so that the number and the order of calls can be stated.
\<close>

record Clientset =
  PodsGet :: "string \<Rightarrow> string \<Rightarrow> string + Pod"
  PodsList :: "string \<Rightarrow> string + Pod list"
  NodesGet :: "string \<Rightarrow> string + Node"

datatype api_call =
    CallPodsGet string string
  | CallPodsList string
  | CallNodesGet string
  | CallAddEventHandler
  | CallInformerRun

section \<open>CheckPod: single-shot mode\<close>

text \<open>
  The loop of \<^verbatim>\<open>verifyLabels\<close> over the required labels; the first entry whose value
  differs from what indexing the node's labels gives is reported.
\<close>

fun check_labels :: "string \<Rightarrow> Pod \<Rightarrow> Node \<Rightarrow> (string \<times> string) list \<Rightarrow> error option" where
  "check_labels tid pod node [] = None"
| "check_labels tid pod node ((key, val) # rest) =
     (if index_map (Labels node) key \<noteq> val
      then Some (MissingLabel tid (Name pod) (NodeName pod) key val)
      else check_labels tid pod node rest)"

definition verifyLabels ::
  "Clientset CheckPodTask \<Rightarrow> Pod \<Rightarrow> api_call list \<Rightarrow> error option \<times> api_call list" where
  "verifyLabels task pod tr =
     (if length (NodeLabels (params task)) = 0 \<or> Phase pod \<noteq> PodRunning then (None, tr)
      else
        (case NodesGet (client task) (NodeName pod) of
           Inl msg \<Rightarrow>
             (Some (FailedToGetNode (BaseTask_ID (base task)) (NodeName pod) (Name pod) msg),
              tr @ [CallNodesGet (NodeName pod)])
         | Inr node \<Rightarrow>
             (check_labels (BaseTask_ID (base task)) pod node (NodeLabels (params task)),
              tr @ [CallNodesGet (NodeName pod)])))"

fun checkPods_loop ::
  "Clientset CheckPodTask \<Rightarrow> string \<Rightarrow> string list \<Rightarrow> api_call list
     \<Rightarrow> error option \<times> api_call list" where
  "checkPods_loop task ns [] tr = (None, tr)"
| "checkPods_loop task ns (name # rest) tr =
     (case PodsGet (client task) ns name of
        Inl msg \<Rightarrow>
          (Some (FailedToGetPod (BaseTask_ID (base task)) name msg), tr @ [CallPodsGet ns name])
      | Inr pod \<Rightarrow>
          (let status = Phase pod in
           if status \<noteq> Status (params task)
           then (Some (StatusMismatch (BaseTask_ID (base task)) name status (Status (params task))),
                 tr @ [CallPodsGet ns name])
           else
             (case verifyLabels task pod (tr @ [CallPodsGet ns name]) of
                (Some err, tr') \<Rightarrow> (Some err, tr')
              | (None, tr') \<Rightarrow> checkPods_loop task ns rest tr')))"

definition checkPods ::
  "Clientset CheckPodTask \<Rightarrow> ObjInfo \<Rightarrow> api_call list \<Rightarrow> error option \<times> api_call list" where
  "checkPods task info tr = checkPods_loop task (Namespace info) (Pods info) tr"

subsection \<open>What a single-shot check asserts of one pod\<close>

text \<open>
  \<open>labels_present\<close> is the requirement in the specification's words: every required
  label/value pair is a pair of the node's label map. \<open>labels_read\<close> is what the
  comparison of the code decides: indexing the node's labels at every required key gives
  the required value.
\<close>

definition labels_present :: "(string \<times> string) list \<Rightarrow> Node \<Rightarrow> bool" where
  "labels_present req node = list_all (\<lambda>(key, val). Labels node key = Some val) req"

definition labels_read :: "(string \<times> string) list \<Rightarrow> Node \<Rightarrow> bool" where
  "labels_read req node = list_all (\<lambda>(key, val). index_map (Labels node) key = val) req"

definition needs_node :: "Clientset CheckPodTask \<Rightarrow> Pod \<Rightarrow> bool" where
  "needs_node task pod = (NodeLabels (params task) \<noteq> [] \<and> Phase pod = PodRunning)"

definition pod_passes :: "Clientset CheckPodTask \<Rightarrow> string \<Rightarrow> string \<Rightarrow> bool" where
  "pod_passes task ns name =
     (case PodsGet (client task) ns name of
        Inl _ \<Rightarrow> False
      | Inr pod \<Rightarrow>
          Phase pod = Status (params task)
          \<and> (if needs_node task pod
             then (case NodesGet (client task) (NodeName pod) of
                     Inl _ \<Rightarrow> False
                   | Inr node \<Rightarrow> labels_read (NodeLabels (params task)) node)
             else True))"

text \<open>
  The calls a check of one pod is expected to make: the Get of the pod, followed by the
  Get of its host node when the pod was found, has the expected phase, is running, and
  labels are required.
\<close>

definition calls_for :: "Clientset CheckPodTask \<Rightarrow> string \<Rightarrow> string \<Rightarrow> api_call list" where
  "calls_for task ns name =
     CallPodsGet ns name #
     (case PodsGet (client task) ns name of
        Inl _ \<Rightarrow> []
      | Inr pod \<Rightarrow>
          if Phase pod = Status (params task) \<and> needs_node task pod
          then [CallNodesGet (NodeName pod)] else [])"

text \<open>The pods that are fetched: those that pass, up to and including the first that fails.\<close>

definition fetched :: "Clientset CheckPodTask \<Rightarrow> string \<Rightarrow> string list \<Rightarrow> string list" where
  "fetched task ns names =
     takeWhile (pod_passes task ns) names @ take 1 (dropWhile (pod_passes task ns) names)"

fun pod_gets :: "api_call list \<Rightarrow> (string \<times> string) list" where
  "pod_gets [] = []"
| "pod_gets (CallPodsGet ns name # cs) = (ns, name) # pod_gets cs"
| "pod_gets (_ # cs) = pod_gets cs"

section \<open>CheckPod: watch mode\<close>

text \<open>
  Modelled from the spec: \<^verbatim>\<open>utils.SyncMap\<close> is defined outside the given sources. The
  specification describes the remaining pods as a mutable set of pod names under an
  exclusive guard. The task stores \<^verbatim>\<open>true\<close> under every key and never reads the value,
  so the map is the list of its keys, each once: \<^verbatim>\<open>Set\<close> adds a key, \<^verbatim>\<open>Get\<close> tests
  membership, \<^verbatim>\<open>Delete\<close> removes a key and returns the size that is left, \<^verbatim>\<open>Size\<close>
  returns the size.
\<close>

type_synonym SyncMap = "string list"

definition NewSyncMap :: SyncMap where
  "NewSyncMap = []"

definition SyncMap_Set :: "SyncMap \<Rightarrow> string \<Rightarrow> SyncMap" where
  "SyncMap_Set m key = (if key \<in> set m then m else m @ [key])"

definition SyncMap_Get :: "SyncMap \<Rightarrow> string \<Rightarrow> bool" where
  "SyncMap_Get m key = (key \<in> set m)"

definition SyncMap_Delete :: "SyncMap \<Rightarrow> string \<Rightarrow> nat \<times> SyncMap" where
  "SyncMap_Delete m key = (length (removeAll key m), removeAll key m)"

definition SyncMap_Size :: "SyncMap \<Rightarrow> nat" where
  "SyncMap_Size m = length m"

text \<open>
  \<^verbatim>\<open>verifyPod\<close> may send one value on the channel \<^verbatim>\<open>errs\<close>: an error, or \<^verbatim>\<open>nil\<close> when
  all pods are accounted for.
\<close>

datatype signal = NoSignal | Signal "error option"

definition verifyPod ::
  "Clientset CheckPodTask \<Rightarrow> SyncMap \<Rightarrow> obj \<Rightarrow> api_call list
     \<Rightarrow> signal \<times> SyncMap \<times> api_call list" where
  "verifyPod task podMap ob tr =
     (case ob of
        OtherObj ty \<Rightarrow> (Signal (Some (UnexpectedObjectType (BaseTask_ID (base task)) ty)), podMap, tr)
      | PodObj pod \<Rightarrow>
          if SyncMap_Get podMap (Name pod) then
            (case verifyLabels task pod tr of
               (Some err, tr') \<Rightarrow> (Signal (Some err), podMap, tr')
             | (None, tr') \<Rightarrow>
                 (case SyncMap_Delete podMap (Name pod) of
                    (sz, remaining) \<Rightarrow>
                      if sz = 0 then (Signal None, remaining, tr')
                      else (NoSignal, remaining, tr')))
          else (NoSignal, podMap, tr))"

text \<open>
  \<^verbatim>\<open>watchPods\<close> runs three activities beside each other: the informer, which calls
  \<^verbatim>\<open>verifyPod\<close> on every Add and Update event; the goroutine that lists the pods of the
  namespace and calls \<^verbatim>\<open>verifyPod\<close> on every item until the map is empty; and the main
  loop, whose \<^verbatim>\<open>select\<close> returns the value it receives from \<^verbatim>\<open>errs\<close>, or \<^verbatim>\<open>ctx.Err()\<close>
  once the context is done. The channel \<^verbatim>\<open>errs\<close> is unbuffered: a goroutine that sends
  stays blocked in the send until the main loop receives, so its map operations are done
  before the value is received, and the context may end in between.

  A run is a sequence of \<open>tick\<close>s followed by the end of the context, with its reason. A
  tick is one step of the informer (the handling of one event, supplied by the
  environment), one step of the lister, or the main loop receiving from one of the two
  goroutines. A goroutine whose send is pending takes no further step. A receive from a
  goroutine with no pending send leaves the main loop waiting. The ticks of a \<open>schedule\<close>
  are the steps that take place before the main loop sees the context done. The shared
  map is guarded, and a call of \<^verbatim>\<open>verifyPod\<close> touches it through one membership test and
  one removal. A schedule also says whether registering the handlers failed.
\<close>

datatype source = FromInformer | FromLister

datatype tick = Informer obj | Lister | Receive source

datatype lister = ListCall | ListItems "Pod list" | ListDone

datatype ctx_done = DeadlineExpired | Cancelled

definition ctx_Err :: "ctx_done \<Rightarrow> error" where
  "ctx_Err d = (case d of DeadlineExpired \<Rightarrow> DeadlineExceeded | Cancelled \<Rightarrow> Canceled)"

record watch_state =
  podMap :: SyncMap
  lister :: lister
  informerSend :: "error option option"
  listerSend :: "error option option"
  calls :: "api_call list"

record schedule =
  addHandlerErr :: "string option"
  ticks :: "tick list"
  ctxDone :: ctx_done

definition informer_step :: "Clientset CheckPodTask \<Rightarrow> watch_state \<Rightarrow> obj \<Rightarrow> watch_state" where
  "informer_step task st ob =
     (if informerSend st \<noteq> None then st
      else
        (case verifyPod task (podMap st) ob (calls st) of
           (Signal err, m, tr) \<Rightarrow> st\<lparr>podMap := m, informerSend := Some err, calls := tr\<rparr>
         | (NoSignal, m, tr) \<Rightarrow> st\<lparr>podMap := m, calls := tr\<rparr>))"

definition lister_step :: "Clientset CheckPodTask \<Rightarrow> ObjInfo \<Rightarrow> watch_state \<Rightarrow> watch_state" where
  "lister_step task info st =
     (if listerSend st \<noteq> None then st
      else
        (case lister st of
           ListCall \<Rightarrow>
             (case PodsList (client task) (Namespace info) of
                Inl msg \<Rightarrow>
                  st\<lparr>lister := ListDone,
                     listerSend := Some (Some (FailedToListPods (BaseTask_ID (base task)) msg)),
                     calls := calls st @ [CallPodsList (Namespace info)]\<rparr>
              | Inr items \<Rightarrow>
                  st\<lparr>lister := ListItems items,
                     calls := calls st @ [CallPodsList (Namespace info)]\<rparr>)
         | ListItems [] \<Rightarrow> st\<lparr>lister := ListDone\<rparr>
         | ListItems (item # items) \<Rightarrow>
             if SyncMap_Size (podMap st) = 0 then st\<lparr>lister := ListDone\<rparr>
             else
               (case verifyPod task (podMap st) (PodObj item) (calls st) of
                  (Signal err, m, tr) \<Rightarrow>
                    st\<lparr>podMap := m, lister := ListItems items, listerSend := Some err, calls := tr\<rparr>
                | (NoSignal, m, tr) \<Rightarrow>
                    st\<lparr>podMap := m, lister := ListItems items, calls := tr\<rparr>)
         | ListDone \<Rightarrow> st))"

fun goroutine_step :: "Clientset CheckPodTask \<Rightarrow> ObjInfo \<Rightarrow> watch_state \<Rightarrow> tick \<Rightarrow> watch_state" where
  "goroutine_step task info st (Informer ob) = informer_step task st ob"
| "goroutine_step task info st Lister = lister_step task info st"
| "goroutine_step task info st (Receive src) = st"

text \<open>What the main loop receives at a tick: the pending send of the goroutine, if any.\<close>

fun receive :: "watch_state \<Rightarrow> tick \<Rightarrow> error option option" where
  "receive st (Receive FromInformer) = informerSend st"
| "receive st (Receive FromLister) = listerSend st"
| "receive st _ = None"

fun watch_loop ::
  "Clientset CheckPodTask \<Rightarrow> ObjInfo \<Rightarrow> tick list \<Rightarrow> ctx_done \<Rightarrow> watch_state
     \<Rightarrow> error option \<times> watch_state" where
  "watch_loop task info [] d st = (Some (ctx_Err d), st)"
| "watch_loop task info (t # ts) d st =
     (case receive st t of
        Some err \<Rightarrow> (err, st)
      | None \<Rightarrow> watch_loop task info ts d (goroutine_step task info st t))"

text \<open>
  The state in which the goroutines start: the map holds the expected pods, nothing is
  pending, the handlers are registered and the informer is started.
\<close>

definition watch_init :: "ObjInfo \<Rightarrow> api_call list \<Rightarrow> watch_state" where
  "watch_init info tr =
     \<lparr>podMap = fold (\<lambda>pod m. SyncMap_Set m pod) (Pods info) NewSyncMap,
      lister = ListCall, informerSend = None, listerSend = None,
      calls = tr @ [CallAddEventHandler, CallInformerRun]\<rparr>"

definition watchPods ::
  "Clientset CheckPodTask \<Rightarrow> ObjInfo \<Rightarrow> schedule \<Rightarrow> api_call list \<Rightarrow> error option \<times> watch_state" where
  "watchPods task info sch tr =
     (case addHandlerErr sch of
        Some msg \<Rightarrow>
          (Some (External msg), (watch_init info tr)\<lparr>calls := tr @ [CallAddEventHandler]\<rparr>)
      | None \<Rightarrow> watch_loop task info (ticks sch) (ctxDone sch) (watch_init info tr))"

section \<open>CheckPod: execution\<close>

definition Exec ::
  "('k, 'd) Eng \<Rightarrow> Clientset CheckPodTask \<Rightarrow> schedule \<Rightarrow> api_call list
     \<Rightarrow> error option \<times> api_call list" where
  "Exec eng task sch tr =
     (case GetObjInfo eng (RefTaskID (params task)) of
        Inl err \<Rightarrow> (Some err, tr)
      | Inr info \<Rightarrow>
          if length (Pods info) = 0 then (None, tr)
          else if Timeout (params task) = 0 then checkPods task info tr
          else (case watchPods task info sch tr of (r, st) \<Rightarrow> (r, calls st)))"

text \<open>
  The errors that come from verifying a delivered object: an object that is not a pod, a
  host node that cannot be fetched, a required label whose value differs.
\<close>

fun is_verification_error :: "error \<Rightarrow> bool" where
  "is_verification_error (UnexpectedObjectType _ _) = True"
| "is_verification_error (FailedToGetNode _ _ _ _) = True"
| "is_verification_error (MissingLabel _ _ _ _ _) = True"
| "is_verification_error _ = False"

text \<open>
  The error a failed check of one pod is expected to report: the failed Get of the pod, the
  phase that differs, the failed Get of the node, or a required label whose value differs.
\<close>

definition reports :: "Clientset CheckPodTask \<Rightarrow> string \<Rightarrow> string \<Rightarrow> error \<Rightarrow> bool" where
  "reports task ns name e =
     (case PodsGet (client task) ns name of
        Inl msg \<Rightarrow> e = FailedToGetPod (BaseTask_ID (base task)) name msg
      | Inr pod \<Rightarrow>
          if Phase pod \<noteq> Status (params task)
          then e = StatusMismatch (BaseTask_ID (base task)) name (Phase pod) (Status (params task))
          else
            (case NodesGet (client task) (NodeName pod) of
               Inl msg \<Rightarrow>
                 e = FailedToGetNode (BaseTask_ID (base task)) (NodeName pod) (Name pod) msg
             | Inr node \<Rightarrow>
                 list_ex (\<lambda>(key, val). index_map (Labels node) key \<noteq> val
                    \<and> e = MissingLabel (BaseTask_ID (base task)) (Name pod) (NodeName pod) key val)
                   (NodeLabels (params task))))"

text \<open>
  The state the goroutines have reached after a sequence of ticks.
\<close>

definition watch_after ::
  "Clientset CheckPodTask \<Rightarrow> ObjInfo \<Rightarrow> watch_state \<Rightarrow> tick list \<Rightarrow> watch_state" where
  "watch_after task info st ts = foldl (goroutine_step task info) st ts"

text \<open>
  The tick at which a goroutine sends: the informer handles an event, or the lister makes
  its call or takes an item, with no send of its own pending, and \<^verbatim>\<open>verifyPod\<close> (or the
  failed List) sends the value. Since a goroutine with a pending send takes no further
  step, this is the first send of the goroutine.
\<close>

definition informer_sends ::
  "Clientset CheckPodTask \<Rightarrow> ObjInfo \<Rightarrow> watch_state \<Rightarrow> tick list \<Rightarrow> nat \<Rightarrow> obj \<Rightarrow> error option \<Rightarrow> bool" where
  "informer_sends task info st0 ts k ob err =
     (k < length ts \<and> ts ! k = Informer ob
      \<and> informerSend (watch_after task info st0 (take k ts)) = None
      \<and> fst (verifyPod task (podMap (watch_after task info st0 (take k ts))) ob
               (calls (watch_after task info st0 (take k ts)))) = Signal err
      \<and> podMap (watch_after task info st0 (take (Suc k) ts))
          = fst (snd (verifyPod task (podMap (watch_after task info st0 (take k ts))) ob
               (calls (watch_after task info st0 (take k ts))))))"

definition lister_sends ::
  "Clientset CheckPodTask \<Rightarrow> ObjInfo \<Rightarrow> watch_state \<Rightarrow> tick list \<Rightarrow> nat \<Rightarrow> error option \<Rightarrow> bool" where
  "lister_sends task info st0 ts k err =
     (k < length ts \<and> ts ! k = Lister
      \<and> listerSend (watch_after task info st0 (take k ts)) = None
      \<and> (case lister (watch_after task info st0 (take k ts)) of
            ListCall \<Rightarrow>
              (case PodsList (client task) (Namespace info) of
                 Inl msg \<Rightarrow> err = Some (FailedToListPods (BaseTask_ID (base task)) msg)
               | Inr _ \<Rightarrow> False)
          | ListItems [] \<Rightarrow> False
          | ListItems (item # items) \<Rightarrow>
              fst (verifyPod task (podMap (watch_after task info st0 (take k ts))) (PodObj item)
                    (calls (watch_after task info st0 (take k ts)))) = Signal err
              \<and> podMap (watch_after task info st0 (take (Suc k) ts))
                  = fst (snd (verifyPod task (podMap (watch_after task info st0 (take k ts)))
                      (PodObj item) (calls (watch_after task info st0 (take k ts)))))
          | ListDone \<Rightarrow> False))"

text \<open>
  The objects a watch is given to verify: the objects of the events the informer handled
  and, once the lister has run, the items the List returned.
\<close>

definition delivered :: "Clientset CheckPodTask \<Rightarrow> ObjInfo \<Rightarrow> tick list \<Rightarrow> obj \<Rightarrow> bool" where
  "delivered task info ts ob =
     (Informer ob \<in> set ts
      \<or> (Lister \<in> set ts
         \<and> (case PodsList (client task) (Namespace info) of
               Inl _ \<Rightarrow> False
             | Inr items \<Rightarrow> ob \<in> set (map PodObj items))))"

fun list_calls :: "api_call list \<Rightarrow> string list" where
  "list_calls [] = []"
| "list_calls (CallPodsList ns # cs) = ns # list_calls cs"
| "list_calls (_ # cs) = list_calls cs"

text \<open>
  Modelled from the spec: the event stream and the List belong to the cluster adapter,
  outside the given sources. The specification has the subscription deliver the Create
  events of pod objects of the namespace and the List return the current pods. On a
  timeline of the calls of the task and the pod creations of the cluster, a creation is
  seen by the stream when it comes after the registration of the handlers, and by the
  List when it comes before the List call.
\<close>

datatype moment = Call api_call | PodCreated string

fun task_calls :: "moment list \<Rightarrow> api_call list" where
  "task_calls [] = []"
| "task_calls (Call c # ms) = c # task_calls ms"
| "task_calls (PodCreated _ # ms) = task_calls ms"

fun created :: "moment list \<Rightarrow> string list" where
  "created [] = []"
| "created (PodCreated name # ms) = name # created ms"
| "created (Call _ # ms) = created ms"

definition seen_by_stream :: "moment list \<Rightarrow> string list" where
  "seen_by_stream line = created (drop 1 (dropWhile (\<lambda>m. m \<noteq> Call CallAddEventHandler) line))"

definition seen_by_list :: "string \<Rightarrow> moment list \<Rightarrow> string list" where
  "seen_by_list ns line =
     (if Call (CallPodsList ns) \<in> set line
      then created (takeWhile (\<lambda>m. m \<noteq> Call (CallPodsList ns)) line) else [])"

section \<open>Task factory\<close>

text \<open>
  Modelled from the spec: the task-kind constants \<^verbatim>\<open>TaskSubmitObj\<close>, ... are declared
  outside the given sources. The specification gives the closed enumeration
  SubmitObj, UpdateObj, CheckObj, DeleteObj, UpdateNodes, CheckPod, Sleep, Pause, and the
  task lists of the repository write these names in the field \<^verbatim>\<open>type\<close>.
\<close>

definition TaskSubmitObj :: string where "TaskSubmitObj = ''SubmitObj''"
definition TaskUpdateObj :: string where "TaskUpdateObj = ''UpdateObj''"
definition TaskCheckObj :: string where "TaskCheckObj = ''CheckObj''"
definition TaskDeleteObj :: string where "TaskDeleteObj = ''DeleteObj''"
definition TaskUpdateNodes :: string where "TaskUpdateNodes = ''UpdateNodes''"
definition TaskCheckPod :: string where "TaskCheckPod = ''CheckPod''"
definition TaskSleep :: string where "TaskSleep = ''Sleep''"
definition TaskPause :: string where "TaskPause = ''Pause''"

definition task_kinds :: "string list" where
  "task_kinds = [TaskSubmitObj, TaskUpdateObj, TaskCheckObj, TaskDeleteObj, TaskUpdateNodes,
                 TaskCheckPod, TaskSleep, TaskPause]"

text \<open>
  The constructors of the other task kinds are outside the given sources; they are
  parameters of the factory, collected in a record. A constructed task of those kinds is a
  value of an open type \<open>'t\<close>, read through \<^verbatim>\<open>task.ID()\<close> and \<^verbatim>\<open>task.RefTaskID\<close>. The
  constructors receive the engine only as the accessor of the registry, whose guard the
  factory holds while they run. The YAML round trip of \<^verbatim>\<open>validate\<close> is a parameter too.
\<close>

record ('p, 'k, 'd, 't) constructors =
  newSubmitObjTask :: "'d option \<Rightarrow> 'p Task \<Rightarrow> error + 't"
  newUpdateObjTask :: "'d option \<Rightarrow> 'p Task \<Rightarrow> error + 't"
  newCheckObjTask :: "'d option \<Rightarrow> 'p Task \<Rightarrow> error + 't"
  newDeleteObjTask :: "'d option \<Rightarrow> 'p Task \<Rightarrow> error + 't"
  newUpdateNodesTask :: "'k option \<Rightarrow> 'p Task \<Rightarrow> error + 't"
  newSleepTask :: "'p Task \<Rightarrow> error + 't"
  newPauseTask :: "'p Task \<Rightarrow> 't"
  task_ID :: "'t \<Rightarrow> string"
  task_RefTaskID :: "'t \<Rightarrow> string"
  yamlUnmarshal :: "'p \<Rightarrow> string + checkPodTaskParams"

datatype ('t, 'k) Runnable =
    SubmitObjTask 't
  | UpdateObjTask 't
  | CheckObjTask 't
  | DeleteObjTask 't
  | UpdateNodesTask 't
  | CheckPodRunnable "'k CheckPodTask"
  | SleepTask 't
  | PauseTask 't

definition GetTask ::
  "('p, 'k, 'd, 't) constructors \<Rightarrow> ('k, 'd) Eng \<Rightarrow> 'p Task \<Rightarrow> error + ('t, 'k) Runnable" where
  "GetTask C eng cfg =
     (if Type cfg = TaskSubmitObj then
        (case newSubmitObjTask C (dynamicClient eng) cfg of
           Inl err \<Rightarrow> Inl err
         | Inr task \<Rightarrow> Inr (SubmitObjTask task))
      else if Type cfg = TaskUpdateObj then
        (case newUpdateObjTask C (dynamicClient eng) cfg of
           Inl err \<Rightarrow> Inl err
         | Inr task \<Rightarrow>
             (case objMap eng (task_RefTaskID C task) of
                None \<Rightarrow> Inl (UnreferencedTaskID (task_ID C task) (task_RefTaskID C task))
              | Some _ \<Rightarrow> Inr (UpdateObjTask task)))
      else if Type cfg = TaskCheckObj then
        (case newCheckObjTask C (dynamicClient eng) cfg of
           Inl err \<Rightarrow> Inl err
         | Inr task \<Rightarrow>
             (case objMap eng (task_RefTaskID C task) of
                None \<Rightarrow> Inl (UnreferencedTaskID (task_ID C task) (task_RefTaskID C task))
              | Some _ \<Rightarrow> Inr (CheckObjTask task)))
      else if Type cfg = TaskDeleteObj then
        (case newDeleteObjTask C (dynamicClient eng) cfg of
           Inl err \<Rightarrow> Inl err
         | Inr task \<Rightarrow>
             (case objMap eng (task_RefTaskID C task) of
                None \<Rightarrow> Inl (UnreferencedTaskID (task_ID C task) (task_RefTaskID C task))
              | Some _ \<Rightarrow> Inr (DeleteObjTask task)))
      else if Type cfg = TaskUpdateNodes then
        (case newUpdateNodesTask C (k8sClient eng) cfg of
           Inl err \<Rightarrow> Inl err
         | Inr task \<Rightarrow> Inr (UpdateNodesTask task))
      else if Type cfg = TaskCheckPod then
        (case newCheckPodTask (yamlUnmarshal C) (k8sClient eng) cfg of
           Inl err \<Rightarrow> Inl err
         | Inr task \<Rightarrow>
             (case objMap eng (RefTaskID (params task)) of
                None \<Rightarrow>
                  Inl (UnreferencedTaskID (BaseTask_ID (base task)) (RefTaskID (params task)))
              | Some _ \<Rightarrow> Inr (CheckPodRunnable task)))
      else if Type cfg = TaskSleep then
        (case newSleepTask C cfg of
           Inl err \<Rightarrow> Inl err
         | Inr task \<Rightarrow> Inr (SleepTask task))
      else if Type cfg = TaskPause then Inr (PauseTask (newPauseTask C cfg))
      else Inl (UnsupportedTaskType (Type cfg)))"

text \<open>The identifier a constructed task refers to, for the kinds that carry one.\<close>

fun referenced :: "('p, 'k, 'd, 't) constructors \<Rightarrow> ('t, 'k) Runnable \<Rightarrow> string option" where
  "referenced C (UpdateObjTask task) = Some (task_RefTaskID C task)"
| "referenced C (CheckObjTask task) = Some (task_RefTaskID C task)"
| "referenced C (DeleteObjTask task) = Some (task_RefTaskID C task)"
| "referenced C (CheckPodRunnable task) = Some (RefTaskID (params task))"
| "referenced C _ = None"

section \<open>Engine: running one task, running a task list\<close>

text \<open>
  \<^verbatim>\<open>Runnable.Exec\<close> is dispatched through the interface; only the CheckPod task's is
  in the given sources, so the method is the parameter \<open>exec\<close>. It runs on a state that
  holds the engine, whose registry a task may extend, and whatever else a task changes.
\<close>

definition execRunnable ::
  "(('t, 'k) Runnable \<Rightarrow> 's \<Rightarrow> error option \<times> 's) \<Rightarrow> ('t, 'k) Runnable \<Rightarrow> 's \<Rightarrow> error option \<times> 's" where
  "execRunnable exec r s =
     (case exec r s of
        (Some err, s') \<Rightarrow> (Some err, s')
      | (None, s') \<Rightarrow> (None, s'))"

definition Eng_RunTask ::
  "('p, 'k, 'd, 't) constructors \<Rightarrow> (('t, 'k) Runnable \<Rightarrow> ('k, 'd) Eng \<times> 'w \<Rightarrow> error option \<times> ('k, 'd) Eng \<times> 'w)
     \<Rightarrow> ('k, 'd) Eng \<times> 'w \<Rightarrow> 'p Task \<Rightarrow> error option \<times> ('k, 'd) Eng \<times> 'w" where
  "Eng_RunTask C exec s cfg =
     (case GetTask C (fst s) cfg of
        Inl err \<Rightarrow> (Some err, s)
      | Inr runnable \<Rightarrow> execRunnable exec runnable s)"

definition Eng_Reset :: "'s \<Rightarrow> error option \<times> 's" where
  "Eng_Reset s = (None, s)"

text \<open>
  The driver \<^verbatim>\<open>Run\<close> works on the interface \<^verbatim>\<open>Engine\<close>: any pair of a \<^verbatim>\<open>RunTask\<close> and
  a \<^verbatim>\<open>Reset\<close> over some state. Every call it makes is logged with its result.
\<close>

record ('s, 'p) Engine =
  RunTask :: "'s \<Rightarrow> 'p Task \<Rightarrow> error option \<times> 's"
  Reset :: "'s \<Rightarrow> error option \<times> 's"

datatype 'p engine_call = RunTaskCall "'p Task" "error option" | ResetCall "error option"

fun run_tasks ::
  "('s, 'p) Engine \<Rightarrow> 'p Task list \<Rightarrow> 's \<Rightarrow> 'p engine_call list
     \<Rightarrow> error option \<times> 's \<times> 'p engine_call list" where
  "run_tasks eng [] s tr = (None, s, tr)"
| "run_tasks eng (cfg # rest) s tr =
     (case RunTask eng s cfg of
        (Some err, s') \<Rightarrow> (Some err, s', tr @ [RunTaskCall cfg (Some err)])
      | (None, s') \<Rightarrow> run_tasks eng rest s' (tr @ [RunTaskCall cfg None]))"

definition Run ::
  "('s, 'p) Engine \<Rightarrow> 'p Task list \<Rightarrow> 's \<Rightarrow> error option \<times> 's \<times> 'p engine_call list" where
  "Run eng tasks s =
     (case run_tasks eng tasks s [] of
        (errExec, s1, tr) \<Rightarrow>
          (case Reset eng s1 of
             (errReset, s2) \<Rightarrow>
               (if errExec \<noteq> None then errExec else errReset, s2, tr @ [ResetCall errReset])))"

definition Eng_Engine ::
  "('p, 'k, 'd, 't) constructors \<Rightarrow> (('t, 'k) Runnable \<Rightarrow> ('k, 'd) Eng \<times> 'w \<Rightarrow> error option \<times> ('k, 'd) Eng \<times> 'w)
     \<Rightarrow> (('k, 'd) Eng \<times> 'w, 'p) Engine" where
  "Eng_Engine C exec = \<lparr>RunTask = Eng_RunTask C exec, Reset = Eng_Reset\<rparr>"

fun is_reset :: "'p engine_call \<Rightarrow> bool" where
  "is_reset (ResetCall _) = True"
| "is_reset (RunTaskCall _ _) = False"

section \<open>Parameter decoder\<close>

text \<open>
  Modelled from the spec: the parameter decoder is the YAML library, outside the given
  sources. The specification has the untyped map re-materialised into the typed shape of
  the task, a type mismatch being a validation error that names the field; a field that
  is absent keeps the zero value. A field of the untyped map is therefore absent, given
  with a value of the type of the field, or given with a value of another type.
\<close>

datatype 'a field = Absent | Given 'a | IllTyped

record raw_params =
  raw_refTaskId :: "string field"
  raw_status :: "string field"
  raw_nodeLabels :: "(string \<times> string) list field"
  raw_timeout :: "int field"

fun decode_field :: "string \<Rightarrow> 'a \<Rightarrow> 'a field \<Rightarrow> string + 'a" where
  "decode_field name z Absent = Inr z"
| "decode_field name z (Given v) = Inr v"
| "decode_field name z IllTyped = Inl (''cannot unmarshal field '' @ name)"

definition decode_params :: "raw_params \<Rightarrow> string + checkPodTaskParams" where
  "decode_params raw =
     (case decode_field ''refTaskId'' [] (raw_refTaskId raw) of
        Inl msg \<Rightarrow> Inl msg
      | Inr r \<Rightarrow>
     (case decode_field ''status'' [] (raw_status raw) of
        Inl msg \<Rightarrow> Inl msg
      | Inr st \<Rightarrow>
     (case decode_field ''nodeLabels'' [] (raw_nodeLabels raw) of
        Inl msg \<Rightarrow> Inl msg
      | Inr labels \<Rightarrow>
     (case decode_field ''timeout'' 0 (raw_timeout raw) of
        Inl msg \<Rightarrow> Inl msg
      | Inr t \<Rightarrow> Inr \<lparr>RefTaskID = r, Status = st, NodeLabels = labels, Timeout = t\<rparr>))))"

section \<open>Concrete engines, clusters and tasks\<close>

definition info0 :: ObjInfo where
  "info0 = \<lparr>GVR = (''batch'', ''v1'', ''jobs''), Namespace = ''default'', Names = [''j0''],
            Pods = [''j0-test-0'', ''j0-test-1'']\<rparr>"

definition eng0 :: "(unit, unit) Eng" where
  "eng0 = \<lparr>k8sClient = Some (), dynamicClient = Some (), objMap = Map.empty(''job'' \<mapsto> info0)\<rparr>"

definition task0 :: "unit CheckPodTask" where
  "task0 = \<lparr>base = \<lparr>taskType = ''CheckPod'', taskID = ''status''\<rparr>, params = zero_params,
            client = ()\<rparr>"

text \<open>
  A cluster with two nodes and three pods of the job: the first pod runs on a labelled
  node, the second on a node without labels, the third is still pending.
\<close>

definition pod_a :: Pod where
  "pod_a = \<lparr>Name = ''j0-test-0'', Phase = ''Running'', NodeName = ''node-a''\<rparr>"

definition pod_b :: Pod where
  "pod_b = \<lparr>Name = ''j0-test-1'', Phase = ''Running'', NodeName = ''node-b''\<rparr>"

definition pod_c :: Pod where
  "pod_c = \<lparr>Name = ''j0-test-2'', Phase = ''Pending'', NodeName = []\<rparr>"

definition node_a :: Node where
  "node_a = \<lparr>Labels = Map.empty(''nodeType'' \<mapsto> ''gpu'')\<rparr>"

definition node_b :: Node where
  "node_b = \<lparr>Labels = Map.empty\<rparr>"

definition cluster1 :: Clientset where
  "cluster1 =
     \<lparr>PodsGet = (\<lambda>ns name.
         if ns = ''default'' \<and> name = ''j0-test-0'' then Inr pod_a
         else if ns = ''default'' \<and> name = ''j0-test-1'' then Inr pod_b
         else if ns = ''default'' \<and> name = ''j0-test-2'' then Inr pod_c
         else Inl ''not found''),
       PodsList = (\<lambda>ns. if ns = ''default'' then Inr [pod_a, pod_b, pod_c] else Inr []),
       NodesGet = (\<lambda>name.
         if name = ''node-a'' then Inr node_a
         else if name = ''node-b'' then Inr node_b
         else Inl ''not found'')\<rparr>"

definition check_task :: "string \<Rightarrow> (string \<times> string) list \<Rightarrow> int \<Rightarrow> Clientset CheckPodTask" where
  "check_task st labels t =
     \<lparr>base = \<lparr>taskType = ''CheckPod'', taskID = ''status''\<rparr>,
      params = \<lparr>RefTaskID = ''job'', Status = st, NodeLabels = labels, Timeout = t\<rparr>,
      client = cluster1\<rparr>"

definition job_info :: "string list \<Rightarrow> ObjInfo" where
  "job_info pods = \<lparr>GVR = (''batch'', ''v1'', ''jobs''), Namespace = ''default'', Names = [''j0''],
                    Pods = pods\<rparr>"

definition cluster2 :: Clientset where
  "cluster2 = cluster1\<lparr>PodsList := (\<lambda>ns. Inl ''forbidden'')\<rparr>"

definition job_eng :: "string list \<Rightarrow> (Clientset, unit) Eng" where
  "job_eng pods =
     \<lparr>k8sClient = Some cluster1, dynamicClient = Some (), objMap = Map.empty(''job'' \<mapsto> job_info pods)\<rparr>"

definition sched :: "tick list \<Rightarrow> ctx_done \<Rightarrow> schedule" where
  "sched ts d = \<lparr>addHandlerErr = None, ticks = ts, ctxDone = d\<rparr>"

text \<open>
  Stand-ins for the constructors that are outside the given sources, used to run the
  factory on concrete descriptors: a constructed task is the pair of its identifier and
  the identifier it refers to.
\<close>

definition ref_task :: "unit option \<Rightarrow> raw_params Task \<Rightarrow> error + (string \<times> string)" where
  "ref_task d cfg =
     (case d of
        None \<Rightarrow> Inl (ClientNotSet (Type cfg) (ID cfg))
      | Some _ \<Rightarrow>
          (case decode_params (Params cfg) of
             Inl msg \<Rightarrow> Inl (ParseParams (Type cfg @ ''/'' @ ID cfg) msg)
           | Inr p \<Rightarrow>
               if RefTaskID p = [] then Inl (MissingRefTaskId (Type cfg @ ''/'' @ ID cfg))
               else Inr (Type cfg @ ''/'' @ ID cfg, RefTaskID p)))"

definition ctors0 :: "(raw_params, Clientset, unit, string \<times> string) constructors" where
  "ctors0 =
     \<lparr>newSubmitObjTask = (\<lambda>d cfg. Inr (Type cfg @ ''/'' @ ID cfg, [])),
      newUpdateObjTask = ref_task,
      newCheckObjTask = ref_task,
      newDeleteObjTask = ref_task,
      newUpdateNodesTask = (\<lambda>k cfg. Inr (Type cfg @ ''/'' @ ID cfg, [])),
      newSleepTask = (\<lambda>cfg. Inr (Type cfg @ ''/'' @ ID cfg, [])),
      newPauseTask = (\<lambda>cfg. (Type cfg @ ''/'' @ ID cfg, [])),
      task_ID = fst,
      task_RefTaskID = snd,
      yamlUnmarshal = decode_params\<rparr>"

definition raw0 :: raw_params where
  "raw0 = \<lparr>raw_refTaskId = Given ''job'', raw_status = Absent, raw_nodeLabels = Absent,
           raw_timeout = Absent\<rparr>"

definition descr :: "string \<Rightarrow> raw_params \<Rightarrow> raw_params Task" where
  "descr ty raw = \<lparr>ID = ''t1'', Type = ty, Params = raw\<rparr>"

definition empty_eng :: "(Clientset, unit) Eng" where
  "empty_eng = \<lparr>k8sClient = Some cluster1, dynamicClient = Some (), objMap = Map.empty\<rparr>"

text \<open>
  An engine that counts the tasks it has run, fails the task named \<open>bad\<close>, and whose
  reset fails.
\<close>

definition counting_engine :: "(nat, raw_params) Engine" where
  "counting_engine =
     \<lparr>RunTask = (\<lambda>s cfg. (if ID cfg = ''bad'' then Some (External ''boom'') else None, Suc s)),
      Reset = (\<lambda>s. (Some (External ''reset failed''), s))\<rparr>"

definition named :: "string \<Rightarrow> raw_params Task" where
  "named n = \<lparr>ID = n, Type = ''Sleep'', Params = raw0\<rparr>"

definition raw_bad :: raw_params where
  "raw_bad = \<lparr>raw_refTaskId = Given ''job'', raw_status = Given ''Running'',
              raw_nodeLabels = Absent, raw_timeout = IllTyped\<rparr>"

text \<open>
  A timeline of a watch of one pod: a pod is created before the handlers are registered,
  one before the List is called, one after it.
\<close>

definition timeline1 :: "moment list" where
  "timeline1 =
     [PodCreated ''early'', Call CallAddEventHandler, Call CallInformerRun,
      PodCreated ''between'', Call (CallPodsList ''default''), Call (CallNodesGet ''node-a''),
      PodCreated ''late'']"

section \<open>Facts about the single-shot check\<close>

lemma check_labels_None:
  "check_labels tid pod node req = None \<longleftrightarrow> labels_read req node"
  by (induction req) (auto simp: labels_read_def split: if_splits)

lemma verifyLabels_fst:
  "fst (verifyLabels task pod tr) = None \<longleftrightarrow>
     (if needs_node task pod
      then (case NodesGet (client task) (NodeName pod) of
              Inl _ \<Rightarrow> False
            | Inr node \<Rightarrow> labels_read (NodeLabels (params task)) node)
      else True)"
  by (auto simp: verifyLabels_def needs_node_def check_labels_None split: sum.splits)

lemma verifyLabels_snd:
  "snd (verifyLabels task pod tr) =
     tr @ (if needs_node task pod then [CallNodesGet (NodeName pod)] else [])"
  by (auto simp: verifyLabels_def needs_node_def split: sum.splits)

lemma checkPods_loop_step_pass:
  assumes "pod_passes task ns name"
  shows "checkPods_loop task ns (name # rest) tr =
           checkPods_loop task ns rest (tr @ calls_for task ns name)"
proof -
  from assms obtain pod where pod: "PodsGet (client task) ns name = Inr pod"
    and ph: "Phase pod = Status (params task)"
    by (auto simp: pod_passes_def split: sum.splits)
  from assms pod have "fst (verifyLabels task pod (tr @ [CallPodsGet ns name])) = None"
    by (simp add: pod_passes_def verifyLabels_fst)
  moreover have "snd (verifyLabels task pod (tr @ [CallPodsGet ns name])) =
      tr @ calls_for task ns name"
    using pod ph by (simp add: verifyLabels_snd calls_for_def)
  ultimately have "verifyLabels task pod (tr @ [CallPodsGet ns name]) =
      (None, tr @ calls_for task ns name)"
    by (metis prod.collapse)
  with pod ph show ?thesis by simp
qed

lemma checkPods_loop_step_fail:
  assumes "\<not> pod_passes task ns name"
  shows "fst (checkPods_loop task ns (name # rest) tr) \<noteq> None
       \<and> snd (checkPods_loop task ns (name # rest) tr) = tr @ calls_for task ns name"
proof (cases "PodsGet (client task) ns name")
  case (Inl msg)
  then show ?thesis by (simp add: calls_for_def)
next
  case (Inr pod)
  show ?thesis
  proof (cases "Phase pod = Status (params task)")
    case False
    with Inr show ?thesis by (simp add: calls_for_def)
  next
    case True
    with assms Inr have "fst (verifyLabels task pod (tr @ [CallPodsGet ns name])) \<noteq> None"
      by (simp add: pod_passes_def verifyLabels_fst)
    then obtain err where
      "verifyLabels task pod (tr @ [CallPodsGet ns name]) =
         (Some err, snd (verifyLabels task pod (tr @ [CallPodsGet ns name])))"
      by (metis not_Some_eq prod.collapse)
    with Inr True show ?thesis
      by (simp add: verifyLabels_snd calls_for_def)
  qed
qed

lemma checkPods_loop_fst:
  "fst (checkPods_loop task ns names tr) = None \<longleftrightarrow> list_all (pod_passes task ns) names"
proof (induction names arbitrary: tr)
  case Nil
  show ?case by simp
next
  case (Cons name rest)
  show ?case
  proof (cases "pod_passes task ns name")
    case True
    then show ?thesis
      using Cons.IH checkPods_loop_step_pass [OF True, of rest tr]
      by (simp del: checkPods_loop.simps)
  next
    case False
    then show ?thesis
      using checkPods_loop_step_fail [OF False, of rest tr]
      by (simp del: checkPods_loop.simps)
  qed
qed

lemma checkPods_loop_snd:
  "snd (checkPods_loop task ns names tr) =
     tr @ concat (map (calls_for task ns) (fetched task ns names))"
proof (induction names arbitrary: tr)
  case Nil
  show ?case by (simp add: fetched_def)
next
  case (Cons name rest)
  show ?case
  proof (cases "pod_passes task ns name")
    case True
    then show ?thesis
      using Cons.IH checkPods_loop_step_pass [OF True, of rest tr]
      by (simp add: fetched_def del: checkPods_loop.simps)
  next
    case False
    then show ?thesis
      using checkPods_loop_step_fail [OF False, of rest tr]
      by (simp add: fetched_def del: checkPods_loop.simps)
  qed
qed

lemma pod_gets_append: "pod_gets (xs @ ys) = pod_gets xs @ pod_gets ys"
  by (induction xs rule: pod_gets.induct) auto

lemma pod_gets_calls_for: "pod_gets (calls_for task ns name) = [(ns, name)]"
  by (simp add: calls_for_def split: sum.splits)

lemma pod_gets_concat_calls_for:
  "pod_gets (concat (map (calls_for task ns) names)) = map (Pair ns) names"
  by (induction names) (simp_all add: pod_gets_append pod_gets_calls_for)

lemma checkPods_loop_skip:
  "list_all (pod_passes task ns) xs \<Longrightarrow>
     checkPods_loop task ns (xs @ ys) tr =
       checkPods_loop task ns ys (tr @ concat (map (calls_for task ns) xs))"
proof (induction xs arbitrary: tr)
  case Nil
  show ?case by simp
next
  case (Cons x xs)
  then have "pod_passes task ns x" and "list_all (pod_passes task ns) xs" by simp_all
  then show ?case
    using Cons.IH [of "tr @ calls_for task ns x"] checkPods_loop_step_pass [of task ns x "xs @ ys" tr]
    by (simp del: checkPods_loop.simps)
qed

lemma check_labels_Some:
  "check_labels tid pod node req = Some e \<Longrightarrow>
     \<exists>key val. (key, val) \<in> set req \<and> index_map (Labels node) key \<noteq> val
        \<and> e = MissingLabel tid (Name pod) (NodeName pod) key val"
  by (induction req) (auto split: if_splits)

lemma checkPods_loop_head_error:
  "(\<forall>msg. PodsGet (client task) ns name = Inl msg \<longrightarrow>
      fst (checkPods_loop task ns (name # rest) tr)
        = Some (FailedToGetPod (BaseTask_ID (base task)) name msg))
   \<and> (\<forall>pod. PodsGet (client task) ns name = Inr pod \<and> Phase pod \<noteq> Status (params task) \<longrightarrow>
      fst (checkPods_loop task ns (name # rest) tr)
        = Some (StatusMismatch (BaseTask_ID (base task)) name (Phase pod) (Status (params task))))
   \<and> (\<forall>pod msg. PodsGet (client task) ns name = Inr pod \<and> Phase pod = Status (params task)
        \<and> needs_node task pod \<and> NodesGet (client task) (NodeName pod) = Inl msg \<longrightarrow>
      fst (checkPods_loop task ns (name # rest) tr)
        = Some (FailedToGetNode (BaseTask_ID (base task)) (NodeName pod) (Name pod) msg))
   \<and> (\<forall>pod node. PodsGet (client task) ns name = Inr pod \<and> Phase pod = Status (params task)
        \<and> needs_node task pod \<and> NodesGet (client task) (NodeName pod) = Inr node
        \<and> \<not> labels_read (NodeLabels (params task)) node \<longrightarrow>
      (\<exists>key val. (key, val) \<in> set (NodeLabels (params task))
         \<and> index_map (Labels node) key \<noteq> val
         \<and> fst (checkPods_loop task ns (name # rest) tr)
             = Some (MissingLabel (BaseTask_ID (base task)) (Name pod) (NodeName pod) key val)))"
proof (intro conjI allI impI)
  fix msg assume "PodsGet (client task) ns name = Inl msg"
  then show "fst (checkPods_loop task ns (name # rest) tr)
        = Some (FailedToGetPod (BaseTask_ID (base task)) name msg)" by simp
next
  fix pod assume "PodsGet (client task) ns name = Inr pod \<and> Phase pod \<noteq> Status (params task)"
  then show "fst (checkPods_loop task ns (name # rest) tr)
        = Some (StatusMismatch (BaseTask_ID (base task)) name (Phase pod) (Status (params task)))"
    by simp
next
  fix pod msg
  assume "PodsGet (client task) ns name = Inr pod \<and> Phase pod = Status (params task)
        \<and> needs_node task pod \<and> NodesGet (client task) (NodeName pod) = Inl msg"
  then have get: "PodsGet (client task) ns name = Inr pod"
    and ph: "Phase pod = Status (params task)"
    and vl: "verifyLabels task pod (tr @ [CallPodsGet ns name]) =
      (Some (FailedToGetNode (BaseTask_ID (base task)) (NodeName pod) (Name pod) msg),
       tr @ [CallPodsGet ns name] @ [CallNodesGet (NodeName pod)])"
    by (auto simp add: verifyLabels_def needs_node_def)
  show "fst (checkPods_loop task ns (name # rest) tr)
        = Some (FailedToGetNode (BaseTask_ID (base task)) (NodeName pod) (Name pod) msg)"
    by (simp add: get ph vl)
next
  fix pod node
  assume a: "PodsGet (client task) ns name = Inr pod \<and> Phase pod = Status (params task)
        \<and> needs_node task pod \<and> NodesGet (client task) (NodeName pod) = Inr node
        \<and> \<not> labels_read (NodeLabels (params task)) node"
  then obtain e where
    e: "check_labels (BaseTask_ID (base task)) pod node (NodeLabels (params task)) = Some e"
    using check_labels_None [of "BaseTask_ID (base task)" pod node "NodeLabels (params task)"]
    by auto
  from check_labels_Some [OF e] obtain key val where
    kv: "(key, val) \<in> set (NodeLabels (params task))" "index_map (Labels node) key \<noteq> val"
      "e = MissingLabel (BaseTask_ID (base task)) (Name pod) (NodeName pod) key val"
    by blast
  from a e have get: "PodsGet (client task) ns name = Inr pod"
    and ph: "Phase pod = Status (params task)"
    and vl: "verifyLabels task pod (tr @ [CallPodsGet ns name]) =
      (Some e, tr @ [CallPodsGet ns name] @ [CallNodesGet (NodeName pod)])"
    by (auto simp add: verifyLabels_def needs_node_def)
  have "fst (checkPods_loop task ns (name # rest) tr) = Some e"
    by (simp add: get ph vl)
  with kv show "\<exists>key val. (key, val) \<in> set (NodeLabels (params task))
         \<and> index_map (Labels node) key \<noteq> val
         \<and> fst (checkPods_loop task ns (name # rest) tr)
             = Some (MissingLabel (BaseTask_ID (base task)) (Name pod) (NodeName pod) key val)"
    by blast
qed

lemma fetched_all: "list_all P names \<Longrightarrow> takeWhile P names @ take 1 (dropWhile P names) = names"
  by (induction names) auto

lemma fetched_prefix:
  "\<exists>k \<le> length names. takeWhile P names @ take 1 (dropWhile P names) = take k names"
proof (cases "dropWhile P names")
  case Nil
  then have "list_all P names"
    by (simp add: list_all_iff)
  then have "takeWhile P names @ take 1 (dropWhile P names) = take (length names) names"
    using fetched_all [of P names] by simp
  then show ?thesis by blast
next
  case (Cons n rest)
  have split: "names = takeWhile P names @ n # rest"
    using Cons by (metis takeWhile_dropWhile_id)
  have "take (Suc (length (takeWhile P names))) names = takeWhile P names @ [n]"
    by (subst split) simp
  moreover have "Suc (length (takeWhile P names)) \<le> length names"
    by (subst (2) split) simp
  ultimately show ?thesis using Cons by (intro exI [of _ "Suc (length (takeWhile P names))"]) simp
qed

lemma checkPods_loop_head_reports:
  assumes "\<not> pod_passes task ns name"
  shows "\<exists>e. fst (checkPods_loop task ns (name # rest) tr) = Some e \<and> reports task ns name e"
proof (cases "PodsGet (client task) ns name")
  case (Inl msg)
  then show ?thesis
    using checkPods_loop_head_error [of task ns name rest tr] by (simp add: reports_def)
next
  case get: (Inr pod)
  show ?thesis
  proof (cases "Phase pod = Status (params task)")
    case False
    with get show ?thesis
      using checkPods_loop_head_error [of task ns name rest tr] by (simp add: reports_def)
  next
    case ph: True
    with assms get have need: "needs_node task pod"
      by (auto simp: pod_passes_def split: if_splits)
    show ?thesis
    proof (cases "NodesGet (client task) (NodeName pod)")
      case (Inl msg)
      with get ph need show ?thesis
        using checkPods_loop_head_error [of task ns name rest tr] by (simp add: reports_def)
    next
      case node: (Inr node)
      with assms get ph need have "\<not> labels_read (NodeLabels (params task)) node"
        by (simp add: pod_passes_def)
      with get ph need node obtain key val where
        "(key, val) \<in> set (NodeLabels (params task))" "index_map (Labels node) key \<noteq> val"
        "fst (checkPods_loop task ns (name # rest) tr)
           = Some (MissingLabel (BaseTask_ID (base task)) (Name pod) (NodeName pod) key val)"
        using checkPods_loop_head_error [of task ns name rest tr] by blast
      with get ph node show ?thesis
        by (auto simp: reports_def list_ex_iff)
    qed
  qed
qed

lemma pod_passes_phase:
  "pod_passes task ns name \<Longrightarrow>
     \<exists>pod. PodsGet (client task) ns name = Inr pod \<and> Phase pod = Status (params task)"
  by (auto simp: pod_passes_def split: sum.splits)

section \<open>Facts about watch mode\<close>

lemma verifyLabels_error:
  "fst (verifyLabels task pod tr) = Some e \<Longrightarrow> is_verification_error e"
  by (auto simp: verifyLabels_def split: if_splits sum.splits dest: check_labels_Some)

lemma verifyPod_cases:
  assumes "verifyPod task m ob tr = (sg, m', tr')"
  shows "(sg = Signal None \<longrightarrow> m' = [])
       \<and> (\<forall>e. sg = Signal (Some e) \<longrightarrow> is_verification_error e \<and> m' = m)
       \<and> (sg = NoSignal \<longrightarrow> m \<noteq> [] \<longrightarrow> m' \<noteq> [])
       \<and> set m' \<subseteq> set m"
proof (cases ob)
  case (OtherObj ty)
  with assms show ?thesis by (auto simp: verifyPod_def)
next
  case (PodObj pod)
  show ?thesis
  proof (cases "verifyLabels task pod tr")
    case (Pair r tr2)
    then have "\<And>e. r = Some e \<Longrightarrow> is_verification_error e"
      using verifyLabels_error [of task pod tr] by simp
    with assms PodObj Pair show ?thesis
      by (auto simp: verifyPod_def SyncMap_Get_def SyncMap_Delete_def
          split: if_splits option.splits)
  qed
qed

lemma verifyPod_signal:
  assumes "fst (verifyPod task m ob tr) = Signal v"
  shows "(v = None \<longrightarrow> fst (snd (verifyPod task m ob tr)) = [])
       \<and> (\<forall>e. v = Some e \<longrightarrow> is_verification_error e \<and> fst (snd (verifyPod task m ob tr)) = m)"
proof -
  obtain sg m' tr' where v: "verifyPod task m ob tr = (sg, m', tr')" by (metis prod_cases3)
  with assms have "sg = Signal v" by simp
  with verifyPod_cases [OF v] v show ?thesis by simp
qed

lemma verifyPod_shrinks:
  "set (fst (snd (verifyPod task m ob tr))) \<subseteq> set m
   \<and> (m = [] \<longrightarrow> fst (snd (verifyPod task m ob tr)) = [])"
proof -
  obtain sg m' tr' where v: "verifyPod task m ob tr = (sg, m', tr')" by (metis prod_cases3)
  with verifyPod_cases [OF v] show ?thesis by auto
qed

lemma verifyPod_shrinks_eq:
  "verifyPod task m ob tr = (sg, m', tr') \<Longrightarrow> set m' \<subseteq> set m \<and> (m = [] \<longrightarrow> m' = [])"
  using verifyPod_cases [of task m ob tr sg m' tr'] by auto

lemma goroutine_step_shrinks:
  "set (podMap (goroutine_step task info st t)) \<subseteq> set (podMap st)
   \<and> (podMap st = [] \<longrightarrow> podMap (goroutine_step task info st t) = [])"
proof (cases t)
  case (Informer ob)
  then show ?thesis
    by (auto simp: informer_step_def split: prod.splits signal.splits
        dest: verifyPod_shrinks_eq)
next
  case Lister
  then show ?thesis
    by (auto simp: lister_step_def
        split: prod.splits signal.splits lister.splits list.splits sum.splits
        dest: verifyPod_shrinks_eq)
next
  case (Receive src)
  then show ?thesis by simp
qed

lemma watch_after_Nil: "watch_after task info st [] = st"
  by (simp add: watch_after_def)

lemma watch_after_Cons:
  "watch_after task info st (t # ts) = watch_after task info (goroutine_step task info st t) ts"
  by (simp add: watch_after_def)

lemma watch_after_snoc:
  "watch_after task info st (ts @ [t]) = goroutine_step task info (watch_after task info st ts) t"
  by (simp add: watch_after_def)

lemma watch_after_append:
  "watch_after task info st (xs @ ys) = watch_after task info (watch_after task info st xs) ys"
  by (simp add: watch_after_def)

lemma watch_after_shrinks:
  "set (podMap (watch_after task info st ts)) \<subseteq> set (podMap st)
   \<and> (podMap st = [] \<longrightarrow> podMap (watch_after task info st ts) = [])"
proof (induction ts arbitrary: st)
  case Nil
  show ?case by (simp add: watch_after_Nil)
next
  case (Cons t ts)
  from Cons.IH [of "goroutine_step task info st t"] goroutine_step_shrinks [of task info st t]
  show ?case by (auto simp: watch_after_Cons)
qed

lemma goroutine_step_keeps_informerSend:
  "informerSend st = Some v \<Longrightarrow> informerSend (goroutine_step task info st t) = Some v"
  by (cases t)
     (auto simp: informer_step_def lister_step_def
        split: prod.splits signal.splits lister.splits list.splits sum.splits)

lemma goroutine_step_keeps_listerSend:
  "listerSend st = Some v \<Longrightarrow> listerSend (goroutine_step task info st t) = Some v"
  by (cases t)
     (auto simp: informer_step_def lister_step_def
        split: prod.splits signal.splits lister.splits list.splits sum.splits)

lemma goroutine_step_new_informerSend:
  assumes "informerSend st = None" and "informerSend (goroutine_step task info st t) = Some v"
  shows "\<exists>ob. t = Informer ob \<and> fst (verifyPod task (podMap st) ob (calls st)) = Signal v
           \<and> podMap (goroutine_step task info st t)
               = fst (snd (verifyPod task (podMap st) ob (calls st)))"
  using assms
  by (cases t)
     (auto simp: informer_step_def lister_step_def
        split: prod.splits signal.splits lister.splits list.splits sum.splits if_splits)

lemma goroutine_step_new_listerSend:
  assumes "listerSend st = None" and "listerSend (goroutine_step task info st t) = Some v"
  shows "t = Lister
       \<and> ((lister st = ListCall
            \<and> (\<exists>msg. PodsList (client task) (Namespace info) = Inl msg
                 \<and> v = Some (FailedToListPods (BaseTask_ID (base task)) msg))
            \<and> podMap (goroutine_step task info st t) = podMap st)
          \<or> (\<exists>item items. lister st = ListItems (item # items)
                \<and> fst (verifyPod task (podMap st) (PodObj item) (calls st)) = Signal v
                \<and> podMap (goroutine_step task info st t)
                    = fst (snd (verifyPod task (podMap st) (PodObj item) (calls st)))))"
  using assms
  by (cases t)
     (auto simp: informer_step_def lister_step_def
        split: prod.splits signal.splits lister.splits list.splits sum.splits if_splits)

lemma goroutine_step_items:
  assumes "\<forall>xs. lister st = ListItems xs \<longrightarrow>
             (\<exists>items. PodsList (client task) (Namespace info) = Inr items \<and> set xs \<subseteq> set items)"
  shows "\<forall>xs. lister (goroutine_step task info st t) = ListItems xs \<longrightarrow>
             (\<exists>items. PodsList (client task) (Namespace info) = Inr items \<and> set xs \<subseteq> set items)"
  using assms
  by (cases t)
     (auto simp: informer_step_def lister_step_def
        split: prod.splits signal.splits lister.splits list.splits sum.splits if_splits)

lemma watch_after_items:
  assumes "\<forall>xs. lister st = ListItems xs \<longrightarrow>
             (\<exists>items. PodsList (client task) (Namespace info) = Inr items \<and> set xs \<subseteq> set items)"
  shows "\<forall>xs. lister (watch_after task info st ts) = ListItems xs \<longrightarrow>
             (\<exists>items. PodsList (client task) (Namespace info) = Inr items \<and> set xs \<subseteq> set items)"
  using assms
proof (induction ts arbitrary: st)
  case Nil
  then show ?case by (simp add: watch_after_Nil)
next
  case (Cons t ts)
  from Cons.IH [OF goroutine_step_items [OF Cons.prems]] show ?case
    by (simp add: watch_after_Cons)
qed

lemma informer_sends_snoc:
  "informer_sends task info st0 ts k ob v \<Longrightarrow> informer_sends task info st0 (ts @ [t]) k ob v"
  by (simp add: informer_sends_def nth_append)

lemma lister_sends_snoc:
  "lister_sends task info st0 ts k v \<Longrightarrow> lister_sends task info st0 (ts @ [t]) k v"
  by (auto simp: lister_sends_def nth_append split: lister.splits list.splits sum.splits)

lemma informerSend_origin:
  assumes "informerSend st0 = None"
  shows "informerSend (watch_after task info st0 ts) = Some v \<Longrightarrow>
           \<exists>k ob. informer_sends task info st0 ts k ob v"
proof (induction ts rule: rev_induct)
  case Nil
  with assms show ?case by (simp add: watch_after_Nil)
next
  case (snoc t ts)
  let ?S = "watch_after task info st0 ts"
  from snoc.prems have new: "informerSend (goroutine_step task info ?S t) = Some v"
    by (simp add: watch_after_snoc)
  show ?case
  proof (cases "informerSend ?S")
    case None
    from goroutine_step_new_informerSend [OF None new] obtain ob where
      "t = Informer ob" "fst (verifyPod task (podMap ?S) ob (calls ?S)) = Signal v"
      "podMap (goroutine_step task info ?S t) = fst (snd (verifyPod task (podMap ?S) ob (calls ?S)))"
      by blast
    with None have "informer_sends task info st0 (ts @ [t]) (length ts) ob v"
      by (simp add: informer_sends_def watch_after_snoc)
    then show ?thesis by blast
  next
    case (Some v')
    from goroutine_step_keeps_informerSend [OF Some] new have "v' = v" by simp
    with Some snoc.IH obtain k ob where "informer_sends task info st0 ts k ob v" by blast
    then show ?thesis using informer_sends_snoc by blast
  qed
qed

lemma listerSend_origin:
  assumes "listerSend st0 = None"
  shows "listerSend (watch_after task info st0 ts) = Some v \<Longrightarrow>
           \<exists>k. lister_sends task info st0 ts k v"
proof (induction ts rule: rev_induct)
  case Nil
  with assms show ?case by (simp add: watch_after_Nil)
next
  case (snoc t ts)
  let ?S = "watch_after task info st0 ts"
  from snoc.prems have new: "listerSend (goroutine_step task info ?S t) = Some v"
    by (simp add: watch_after_snoc)
  show ?case
  proof (cases "listerSend ?S")
    case None
    from goroutine_step_new_listerSend [OF None new] None
    have "lister_sends task info st0 (ts @ [t]) (length ts) v"
      by (auto simp: lister_sends_def watch_after_snoc split: lister.splits list.splits sum.splits)
    then show ?thesis by blast
  next
    case (Some v')
    from goroutine_step_keeps_listerSend [OF Some] new have "v' = v" by simp
    with Some snoc.IH obtain k where "lister_sends task info st0 ts k v" by blast
    then show ?thesis using lister_sends_snoc by blast
  qed
qed

lemma watch_loop_first_receive:
  "watch_loop task info ts d st0 = (r, st) \<Longrightarrow>
     (\<exists>n v. n < length ts
        \<and> receive (watch_after task info st0 (take n ts)) (ts ! n) = Some v
        \<and> (\<forall>k<n. receive (watch_after task info st0 (take k ts)) (ts ! k) = None)
        \<and> r = v \<and> st = watch_after task info st0 (take n ts))
     \<or> ((\<forall>n<length ts. receive (watch_after task info st0 (take n ts)) (ts ! n) = None)
        \<and> r = Some (ctx_Err d) \<and> st = watch_after task info st0 ts)"
proof (induction ts arbitrary: st0)
  case Nil
  then show ?case by (simp add: watch_after_Nil)
next
  case (Cons t ts)
  show ?case
  proof (cases "receive st0 t")
    case (Some v)
    with Cons.prems have "r = v" and "st = st0" by simp_all
    with Some have "0 < length (t # ts)
        \<and> receive (watch_after task info st0 (take 0 (t # ts))) ((t # ts) ! 0) = Some v
        \<and> (\<forall>k<0. receive (watch_after task info st0 (take k (t # ts))) ((t # ts) ! k) = None)
        \<and> r = v \<and> st = watch_after task info st0 (take 0 (t # ts))"
      by (simp add: watch_after_Nil)
    then show ?thesis by blast
  next
    case None
    let ?st1 = "goroutine_step task info st0 t"
    from None Cons.prems have "watch_loop task info ts d ?st1 = (r, st)" by simp
    from Cons.IH [OF this] show ?thesis
    proof
      assume "\<exists>n v. n < length ts
        \<and> receive (watch_after task info ?st1 (take n ts)) (ts ! n) = Some v
        \<and> (\<forall>k<n. receive (watch_after task info ?st1 (take k ts)) (ts ! k) = None)
        \<and> r = v \<and> st = watch_after task info ?st1 (take n ts)"
      then obtain n v where n: "n < length ts"
        "receive (watch_after task info ?st1 (take n ts)) (ts ! n) = Some v"
        "\<forall>k<n. receive (watch_after task info ?st1 (take k ts)) (ts ! k) = None"
        "r = v" "st = watch_after task info ?st1 (take n ts)" by blast
      have "\<forall>k<Suc n. receive (watch_after task info st0 (take k (t # ts))) ((t # ts) ! k) = None"
      proof (intro allI impI)
        fix k assume "k < Suc n"
        then show "receive (watch_after task info st0 (take k (t # ts))) ((t # ts) ! k) = None"
          using None n(3) by (cases k) (simp_all add: watch_after_Nil watch_after_Cons)
      qed
      with n have "Suc n < length (t # ts)
        \<and> receive (watch_after task info st0 (take (Suc n) (t # ts))) ((t # ts) ! Suc n) = Some v
        \<and> (\<forall>k<Suc n. receive (watch_after task info st0 (take k (t # ts))) ((t # ts) ! k) = None)
        \<and> r = v \<and> st = watch_after task info st0 (take (Suc n) (t # ts))"
        by (simp add: watch_after_Cons)
      then show ?thesis by blast
    next
      assume a: "(\<forall>n<length ts. receive (watch_after task info ?st1 (take n ts)) (ts ! n) = None)
        \<and> r = Some (ctx_Err d) \<and> st = watch_after task info ?st1 ts"
      have "\<forall>n<length (t # ts). receive (watch_after task info st0 (take n (t # ts))) ((t # ts) ! n) = None"
      proof (intro allI impI)
        fix n assume "n < length (t # ts)"
        then show "receive (watch_after task info st0 (take n (t # ts))) ((t # ts) ! n) = None"
          using None a by (cases n) (simp_all add: watch_after_Nil watch_after_Cons)
      qed
      with a show ?thesis by (simp add: watch_after_Cons)
    qed
  qed
qed

lemma fold_SyncMap_Set:
  "set (fold (\<lambda>pod m. SyncMap_Set m pod) xs m) = set xs \<union> set m"
  by (induction xs arbitrary: m) (auto simp: SyncMap_Set_def)

lemma watch_init_podMap: "set (podMap (watch_init info tr)) = set (Pods info)"
  by (simp add: watch_init_def fold_SyncMap_Set NewSyncMap_def)

lemma take_Suc_shrinks:
  "podMap (watch_after task info st0 (take (Suc k) ts)) = [] \<Longrightarrow> k < length ts \<Longrightarrow>
     podMap (watch_after task info st0 ts) = []"
proof -
  assume e: "podMap (watch_after task info st0 (take (Suc k) ts)) = []" and "k < length ts"
  have "watch_after task info st0 ts
      = watch_after task info (watch_after task info st0 (take (Suc k) ts)) (drop (Suc k) ts)"
    by (metis append_take_drop_id watch_after_append)
  with e show ?thesis
    using watch_after_shrinks [of task info "watch_after task info st0 (take (Suc k) ts)" "drop (Suc k) ts"]
    by simp
qed

lemma informer_sends_cause:
  assumes "informer_sends task info st0 ts k ob v" and "set (podMap st0) \<subseteq> set (Pods info)"
  shows "(v = None \<longrightarrow> podMap (watch_after task info st0 ts) = [])
       \<and> (\<forall>e. v = Some e \<longrightarrow> is_verification_error e \<and> Informer ob \<in> set ts
            \<and> (\<exists>m tr0. set m \<subseteq> set (Pods info)
                  \<and> fst (verifyPod task m ob tr0) = Signal (Some e)))"
proof -
  let ?S = "watch_after task info st0 (take k ts)"
  from assms(1) have k: "k < length ts" and t: "ts ! k = Informer ob"
    and sg: "fst (verifyPod task (podMap ?S) ob (calls ?S)) = Signal v"
    and pm: "podMap (watch_after task info st0 (take (Suc k) ts))
               = fst (snd (verifyPod task (podMap ?S) ob (calls ?S)))"
    by (simp_all add: informer_sends_def)
  have sub: "set (podMap ?S) \<subseteq> set (Pods info)"
    using watch_after_shrinks [of task info st0 "take k ts"] assms(2) by blast
  from k t have mem: "Informer ob \<in> set ts" by (metis nth_mem)
  from verifyPod_signal [OF sg] pm k sub sg mem show ?thesis
    by (auto intro: take_Suc_shrinks)
qed

lemma lister_sends_cause:
  assumes "lister_sends task info st0 ts k v" and "set (podMap st0) \<subseteq> set (Pods info)"
    and "lister st0 = ListCall"
  shows "(v = None \<longrightarrow> podMap (watch_after task info st0 ts) = [])
       \<and> (\<forall>e. v = Some e \<longrightarrow> Lister \<in> set ts
            \<and> ((\<exists>msg. e = FailedToListPods (BaseTask_ID (base task)) msg
                   \<and> PodsList (client task) (Namespace info) = Inl msg)
               \<or> (is_verification_error e
                   \<and> (\<exists>items item m tr0. PodsList (client task) (Namespace info) = Inr items
                         \<and> item \<in> set items \<and> set m \<subseteq> set (Pods info)
                         \<and> fst (verifyPod task m (PodObj item) tr0) = Signal (Some e)))))"
proof -
  let ?S = "watch_after task info st0 (take k ts)"
  from assms(1) have k: "k < length ts" and t: "ts ! k = Lister"
    by (simp_all add: lister_sends_def)
  from k t have mem: "Lister \<in> set ts" by (metis nth_mem)
  have sub: "set (podMap ?S) \<subseteq> set (Pods info)"
    using watch_after_shrinks [of task info st0 "take k ts"] assms(2) by blast
  have items: "\<forall>xs. lister ?S = ListItems xs \<longrightarrow>
             (\<exists>items. PodsList (client task) (Namespace info) = Inr items \<and> set xs \<subseteq> set items)"
    using assms(3) by (intro watch_after_items) simp
  show ?thesis
  proof (cases "lister ?S")
    case ListCall
    with assms(1) mem show ?thesis
      by (auto simp: lister_sends_def split: sum.splits)
  next
    case ListDone
    with assms(1) show ?thesis by (simp add: lister_sends_def)
  next
    case (ListItems xs)
    show ?thesis
    proof (cases xs)
      case Nil
      with ListItems assms(1) show ?thesis by (simp add: lister_sends_def)
    next
      case (Cons item rest)
      with ListItems assms(1) have
        sg: "fst (verifyPod task (podMap ?S) (PodObj item) (calls ?S)) = Signal v"
        and pm: "podMap (watch_after task info st0 (take (Suc k) ts))
               = fst (snd (verifyPod task (podMap ?S) (PodObj item) (calls ?S)))"
        by (simp_all add: lister_sends_def)
      from items ListItems Cons obtain all_items where
        "PodsList (client task) (Namespace info) = Inr all_items" "item \<in> set all_items"
        by auto
      with verifyPod_signal [OF sg] pm k sub sg mem show ?thesis
        by (auto intro: take_Suc_shrinks)
    qed
  qed
qed

lemma watch_loop_sound:
  assumes "watch_loop task info ts d (watch_init info tr) = (r, st)"
  shows "((r = None \<and> podMap st = [])
          \<or> (\<exists>e ob m tr0. r = Some e \<and> is_verification_error e \<and> delivered task info ts ob
                \<and> set m \<subseteq> set (Pods info) \<and> fst (verifyPod task m ob tr0) = Signal (Some e))
          \<or> (\<exists>msg. r = Some (FailedToListPods (BaseTask_ID (base task)) msg)
                \<and> PodsList (client task) (Namespace info) = Inl msg \<and> Lister \<in> set ts)
          \<or> (r = Some DeadlineExceeded \<and> d = DeadlineExpired)
          \<or> (r = Some Canceled \<and> d = Cancelled))
       \<and> set (podMap st) \<subseteq> set (Pods info)"
proof -
  let ?st0 = "watch_init info tr"
  have init: "set (podMap ?st0) \<subseteq> set (Pods info)" "lister ?st0 = ListCall"
    "informerSend ?st0 = None" "listerSend ?st0 = None"
    by (simp_all add: watch_init_podMap) (simp_all add: watch_init_def)
  from watch_loop_first_receive [OF assms]
  consider (recv) n v where "n < length ts"
      "receive (watch_after task info ?st0 (take n ts)) (ts ! n) = Some v"
      "r = v" "st = watch_after task info ?st0 (take n ts)"
    | (ctx) "r = Some (ctx_Err d)" "st = watch_after task info ?st0 ts"
    by blast
  then show ?thesis
  proof cases
    case ctx
    with init(1) watch_after_shrinks [of task info ?st0 ts] show ?thesis
      by (cases d) (auto simp: ctx_Err_def)
  next
    case recv
    let ?pre = "take n ts"
    have sub: "set (podMap st) \<subseteq> set (Pods info)"
      using recv(4) init(1) watch_after_shrinks [of task info ?st0 ?pre] by blast
    have pre: "set ?pre \<subseteq> set ts" by (rule set_take_subset)
    obtain src where src: "ts ! n = Receive src"
      using recv(2) by (cases "ts ! n") simp_all
    show ?thesis
    proof (cases src)
      case FromInformer
      with src recv(2) have "informerSend (watch_after task info ?st0 ?pre) = Some v" by simp
      from informerSend_origin [OF init(3) this] obtain k ob where
        "informer_sends task info ?st0 ?pre k ob v" by blast
      note cause = informer_sends_cause [OF this init(1)]
      show ?thesis
      proof (cases v)
        case None
        with cause recv(3,4) sub show ?thesis by simp
      next
        case (Some e)
        with cause obtain m tr0 where "is_verification_error e" "Informer ob \<in> set ?pre"
          "set m \<subseteq> set (Pods info)" "fst (verifyPod task m ob tr0) = Signal (Some e)"
          by blast
        with pre have "r = Some e \<and> is_verification_error e \<and> delivered task info ts ob
                \<and> set m \<subseteq> set (Pods info) \<and> fst (verifyPod task m ob tr0) = Signal (Some e)"
          using recv(3) Some by (auto simp: delivered_def)
        with sub show ?thesis by blast
      qed
    next
      case FromLister
      with src recv(2) have "listerSend (watch_after task info ?st0 ?pre) = Some v" by simp
      from listerSend_origin [OF init(4) this] obtain k where
        "lister_sends task info ?st0 ?pre k v" by blast
      note cause = lister_sends_cause [OF this init(1,2)]
      show ?thesis
      proof (cases v)
        case None
        with cause recv(3,4) sub show ?thesis by simp
      next
        case (Some e)
        with cause have lis: "Lister \<in> set ?pre"
          and alt: "(\<exists>msg. e = FailedToListPods (BaseTask_ID (base task)) msg
                   \<and> PodsList (client task) (Namespace info) = Inl msg)
               \<or> (is_verification_error e
                   \<and> (\<exists>items item m tr0. PodsList (client task) (Namespace info) = Inr items
                         \<and> item \<in> set items \<and> set m \<subseteq> set (Pods info)
                         \<and> fst (verifyPod task m (PodObj item) tr0) = Signal (Some e)))"
          by blast+
        from lis pre have lis': "Lister \<in> set ts" by blast
        from alt show ?thesis
        proof
          assume "\<exists>msg. e = FailedToListPods (BaseTask_ID (base task)) msg
                   \<and> PodsList (client task) (Namespace info) = Inl msg"
          with lis' recv(3) Some sub show ?thesis by auto
        next
          assume "is_verification_error e
                   \<and> (\<exists>items item m tr0. PodsList (client task) (Namespace info) = Inr items
                         \<and> item \<in> set items \<and> set m \<subseteq> set (Pods info)
                         \<and> fst (verifyPod task m (PodObj item) tr0) = Signal (Some e))"
          then obtain items item m tr0 where "is_verification_error e"
            "PodsList (client task) (Namespace info) = Inr items" "item \<in> set items"
            "set m \<subseteq> set (Pods info)" "fst (verifyPod task m (PodObj item) tr0) = Signal (Some e)"
            by blast
          with lis' have "r = Some e \<and> is_verification_error e
                \<and> delivered task info ts (PodObj item)
                \<and> set m \<subseteq> set (Pods info)
                \<and> fst (verifyPod task m (PodObj item) tr0) = Signal (Some e)"
            using recv(3) Some by (auto simp: delivered_def)
          with sub show ?thesis by blast
        qed
      qed
    qed
  qed
qed

lemma receive_only_Receive: "(\<forall>src. t \<noteq> Receive src) \<Longrightarrow> receive st t = None"
  by (cases t) simp_all

lemma watch_loop_no_receive:
  assumes "\<forall>src. Receive src \<notin> set ts"
  shows "watch_loop task info ts d st0 = (Some (ctx_Err d), watch_after task info st0 ts)"
  using assms
proof (induction ts arbitrary: st0)
  case Nil
  show ?case by (simp add: watch_after_Nil)
next
  case (Cons t ts)
  then have "receive st0 t = None" by (intro receive_only_Receive) auto
  with Cons show ?case by (simp add: watch_after_Cons)
qed

lemma list_calls_append: "list_calls (xs @ ys) = list_calls xs @ list_calls ys"
  by (induction xs rule: list_calls.induct) auto

lemma verifyPod_calls:
  "\<exists>gets. snd (snd (verifyPod task m ob tr)) = tr @ gets
     \<and> CallAddEventHandler \<notin> set gets \<and> CallInformerRun \<notin> set gets \<and> list_calls gets = []"
proof (cases ob)
  case (OtherObj ty)
  then show ?thesis by (simp add: verifyPod_def)
next
  case (PodObj pod)
  obtain r tr' where vl: "verifyLabels task pod tr = (r, tr')" by (metis surj_pair)
  with verifyLabels_snd [of task pod tr] have
    tr': "tr' = tr @ (if needs_node task pod then [CallNodesGet (NodeName pod)] else [])"
    by simp
  have "snd (snd (verifyPod task m ob tr)) = tr \<or> snd (snd (verifyPod task m ob tr)) = tr'"
    using PodObj vl by (auto simp: verifyPod_def split: option.splits prod.splits)
  with tr' show ?thesis by auto
qed

lemma verifyPod_calls_eq:
  "verifyPod task m ob tr = (sg, m', tr') \<Longrightarrow>
     \<exists>gets. tr' = tr @ gets
       \<and> CallAddEventHandler \<notin> set gets \<and> CallInformerRun \<notin> set gets \<and> list_calls gets = []"
  using verifyPod_calls [of task m ob tr] by simp

lemma goroutine_step_calls:
  assumes "lister st = ListCall \<longrightarrow> listerSend st = None"
  shows "\<exists>extra. calls (goroutine_step task info st t) = calls st @ extra
     \<and> CallAddEventHandler \<notin> set extra \<and> CallInformerRun \<notin> set extra
     \<and> (lister (goroutine_step task info st t) = ListCall \<longrightarrow>
          lister st = ListCall \<and> list_calls extra = []
          \<and> listerSend (goroutine_step task info st t) = None)
     \<and> (lister (goroutine_step task info st t) \<noteq> ListCall \<longrightarrow>
          list_calls extra = (if lister st = ListCall then [Namespace info] else []))"
proof (cases t)
  case (Informer ob)
  obtain sg m tr where v: "verifyPod task (podMap st) ob (calls st) = (sg, m, tr)"
    by (metis prod_cases3)
  from verifyPod_calls_eq [OF v] v Informer assms show ?thesis
    by (cases sg; cases "informerSend st") (auto simp: informer_step_def)
next
  case (Receive src)
  with assms show ?thesis by simp
next
  case Lister
  show ?thesis
  proof (cases "listerSend st")
    case (Some v)
    with Lister assms show ?thesis by (auto simp: lister_step_def)
  next
    case None
    show ?thesis
    proof (cases "lister st")
      case ListCall
      with None Lister show ?thesis
        by (auto simp: lister_step_def split: sum.splits)
    next
      case ListDone
      with None Lister show ?thesis by (simp add: lister_step_def)
    next
      case (ListItems xs)
      show ?thesis
      proof (cases xs)
        case Nil
        with ListItems None Lister show ?thesis by (simp add: lister_step_def)
      next
        case (Cons item rest)
        obtain sg m tr where v: "verifyPod task (podMap st) (PodObj item) (calls st) = (sg, m, tr)"
          by (metis prod_cases3)
        from verifyPod_calls_eq [OF v] v Cons ListItems None Lister show ?thesis
          by (cases sg) (auto simp: lister_step_def)
      qed
    qed
  qed
qed

lemma watch_after_calls:
  assumes "lister st = ListCall" and "listerSend st = None"
  shows "\<exists>extra. calls (watch_after task info st ts) = calls st @ extra
     \<and> CallAddEventHandler \<notin> set extra \<and> CallInformerRun \<notin> set extra
     \<and> (lister (watch_after task info st ts) = ListCall \<longrightarrow>
          list_calls extra = [] \<and> listerSend (watch_after task info st ts) = None)
     \<and> (lister (watch_after task info st ts) \<noteq> ListCall \<longrightarrow> list_calls extra = [Namespace info])"
proof (induction ts rule: rev_induct)
  case Nil
  with assms show ?case by (simp add: watch_after_Nil)
next
  case (snoc t ts)
  let ?S = "watch_after task info st ts"
  from snoc obtain extra where e: "calls ?S = calls st @ extra"
    "CallAddEventHandler \<notin> set extra" "CallInformerRun \<notin> set extra"
    "lister ?S = ListCall \<longrightarrow> list_calls extra = [] \<and> listerSend ?S = None"
    "lister ?S \<noteq> ListCall \<longrightarrow> list_calls extra = [Namespace info]"
    by blast
  from e(4) have "lister ?S = ListCall \<longrightarrow> listerSend ?S = None" by simp
  from goroutine_step_calls [OF this, of task info t] obtain more where m:
    "calls (goroutine_step task info ?S t) = calls ?S @ more"
    "CallAddEventHandler \<notin> set more" "CallInformerRun \<notin> set more"
    "lister (goroutine_step task info ?S t) = ListCall \<longrightarrow>
          lister ?S = ListCall \<and> list_calls more = []
          \<and> listerSend (goroutine_step task info ?S t) = None"
    "lister (goroutine_step task info ?S t) \<noteq> ListCall \<longrightarrow>
          list_calls more = (if lister ?S = ListCall then [Namespace info] else [])"
    by blast
  have "calls (watch_after task info st (ts @ [t])) = calls st @ (extra @ more)
     \<and> CallAddEventHandler \<notin> set (extra @ more) \<and> CallInformerRun \<notin> set (extra @ more)
     \<and> (lister (watch_after task info st (ts @ [t])) = ListCall \<longrightarrow>
          list_calls (extra @ more) = [] \<and> listerSend (watch_after task info st (ts @ [t])) = None)
     \<and> (lister (watch_after task info st (ts @ [t])) \<noteq> ListCall \<longrightarrow>
          list_calls (extra @ more) = [Namespace info])"
    using e m by (auto simp: watch_after_snoc list_calls_append)
  then show ?case by blast
qed

lemma watch_loop_calls:
  assumes "watch_loop task info ts d (watch_init info tr) = (r, st)"
  shows "\<exists>rest. calls st = tr @ CallAddEventHandler # CallInformerRun # rest
     \<and> CallAddEventHandler \<notin> set rest \<and> CallInformerRun \<notin> set rest
     \<and> (list_calls rest = [] \<or> list_calls rest = [Namespace info])"
proof -
  from watch_loop_first_receive [OF assms] obtain pre where
    "st = watch_after task info (watch_init info tr) pre" by blast
  moreover have "lister (watch_init info tr) = ListCall" "listerSend (watch_init info tr) = None"
    by (simp_all add: watch_init_def)
  from watch_after_calls [OF this, of task info pre]
  obtain extra where "calls (watch_after task info (watch_init info tr) pre)
      = calls (watch_init info tr) @ extra"
    "CallAddEventHandler \<notin> set extra" "CallInformerRun \<notin> set extra"
    "list_calls extra = [] \<or> list_calls extra = [Namespace info]"
    by blast
  ultimately show ?thesis by (simp add: watch_init_def)
qed

lemma created_set: "name \<in> set (created ms) \<longleftrightarrow> PodCreated name \<in> set ms"
  by (induction ms rule: created.induct) auto

lemma task_calls_set: "c \<in> set (task_calls ms) \<longleftrightarrow> Call c \<in> set ms"
  by (induction ms rule: task_calls.induct) auto

lemma task_calls_append: "task_calls (xs @ ys) = task_calls xs @ task_calls ys"
  by (induction xs rule: task_calls.induct) auto

lemma list_calls_set: "ns \<in> set (list_calls cs) \<longleftrightarrow> CallPodsList ns \<in> set cs"
  by (induction cs rule: list_calls.induct) auto

lemma timeline_coverage:
  assumes first: "task_calls line = CallAddEventHandler # rest"
    and listed: "Call (CallPodsList ns) \<in> set line"
    and made: "PodCreated name \<in> set line"
  shows "name \<in> set (seen_by_stream line) \<or> name \<in> set (seen_by_list ns line)"
proof -
  have "Call CallAddEventHandler \<in> set line"
    using first task_calls_set [of CallAddEventHandler line] by simp
  from split_list_first [OF this] obtain pre tail where
    line: "line = pre @ Call CallAddEventHandler # tail"
    and no_handler: "Call CallAddEventHandler \<notin> set pre"
    by blast
  have calls_pre: "task_calls pre = []"
  proof (cases "task_calls pre")
    case Nil
    then show ?thesis .
  next
    case (Cons c cs)
    with first line have "c = CallAddEventHandler" by (simp add: task_calls_append)
    with Cons have "CallAddEventHandler \<in> set (task_calls pre)" by simp
    with no_handler show ?thesis by (simp add: task_calls_set)
  qed
  have no_calls: "Call c \<notin> set pre" for c
    using calls_pre task_calls_set [of c pre] by simp
  have stream: "seen_by_stream line = created tail"
  proof -
    have "dropWhile (\<lambda>m. m \<noteq> Call CallAddEventHandler) (pre @ Call CallAddEventHandler # tail)
        = dropWhile (\<lambda>m. m \<noteq> Call CallAddEventHandler) (Call CallAddEventHandler # tail)"
      using no_handler by (intro dropWhile_append2) auto
    then show ?thesis by (simp add: seen_by_stream_def line)
  qed
  have list_pre: "set pre \<subseteq> set (takeWhile (\<lambda>m. m \<noteq> Call (CallPodsList ns)) line)"
  proof -
    have "takeWhile (\<lambda>m. m \<noteq> Call (CallPodsList ns)) (pre @ Call CallAddEventHandler # tail)
        = pre @ takeWhile (\<lambda>m. m \<noteq> Call (CallPodsList ns)) (Call CallAddEventHandler # tail)"
      using no_calls by (intro takeWhile_append2) auto
    then show ?thesis by (auto simp: line)
  qed
  from made line have "PodCreated name \<in> set pre \<or> PodCreated name \<in> set tail"
    by auto
  then show ?thesis
  proof
    assume "PodCreated name \<in> set pre"
    with list_pre have "PodCreated name \<in> set (takeWhile (\<lambda>m. m \<noteq> Call (CallPodsList ns)) line)"
      by blast
    with listed show ?thesis
      by (simp add: seen_by_list_def created_set)
  next
    assume "PodCreated name \<in> set tail"
    with stream show ?thesis by (simp add: created_set)
  qed
qed

lemma lister_step_item:
  assumes "listerSend s = None" and "lister s = ListItems (item # items)"
    and "SyncMap_Size (podMap s) \<noteq> 0"
    and "verifyPod task (podMap s) (PodObj item) (calls s) = (Signal v, m, tr')"
  shows "listerSend (lister_step task info s) = Some v"
  using assms by (simp add: lister_step_def)

lemma watch_loop_list_failure:
  assumes "PodsList (client task) (Namespace info) = Inl msg"
  shows "fst (watch_loop task info (Lister # Receive FromLister # rest) d (watch_init info tr))
           = Some (FailedToListPods (BaseTask_ID (base task)) msg)"
  using assms by (simp add: watch_init_def lister_step_def)

lemma watch_loop_first_event:
  assumes "fst (verifyPod task (podMap (watch_init info tr)) ob (calls (watch_init info tr)))
             = Signal v"
  shows "fst (watch_loop task info (Informer ob # Receive FromInformer # rest) d (watch_init info tr))
           = v"
proof -
  obtain sg m tr' where
    vp: "verifyPod task (podMap (watch_init info tr)) ob (calls (watch_init info tr)) = (sg, m, tr')"
    by (rule prod_cases3)
  with assms have "sg = Signal v" by simp
  with vp have "informerSend (informer_step task (watch_init info tr) ob) = Some v"
    by (simp add: informer_step_def watch_init_def)
  then show ?thesis by (simp add: watch_init_def)
qed

lemma watch_loop_first_item:
  assumes "PodsList (client task) (Namespace info) = Inr (item # items)"
    and "Pods info \<noteq> []"
    and "fst (verifyPod task (podMap (watch_init info tr)) (PodObj item)
                (calls (watch_init info tr) @ [CallPodsList (Namespace info)])) = Signal v"
  shows "fst (watch_loop task info (Lister # Lister # Receive FromLister # rest) d
                (watch_init info tr)) = v"
proof -
  define st1 where "st1 = lister_step task info (watch_init info tr)"
  have lis: "lister st1 = ListItems (item # items)" and snd: "listerSend st1 = None"
    and pm: "podMap st1 = podMap (watch_init info tr)"
    and cs: "calls st1 = calls (watch_init info tr) @ [CallPodsList (Namespace info)]"
    using assms(1) by (simp_all add: st1_def lister_step_def watch_init_def)
  have "set (podMap st1) = set (Pods info)" by (simp add: pm watch_init_podMap)
  with assms(2) have size: "SyncMap_Size (podMap st1) \<noteq> 0"
    by (auto simp: SyncMap_Size_def)
  obtain sg m tr' where
    vp: "verifyPod task (podMap st1) (PodObj item) (calls st1) = (sg, m, tr')"
    by (rule prod_cases3)
  with assms(3) have "sg = Signal v" by (simp add: pm cs)
  with vp have "verifyPod task (podMap st1) (PodObj item) (calls st1) = (Signal v, m, tr')"
    by simp
  from lister_step_item [OF snd lis size this]
  have sent: "listerSend (lister_step task info st1) = Some v" .
  have r1: "receive (watch_init info tr) Lister = None" by simp
  have r2: "receive st1 Lister = None" by simp
  show ?thesis
    using sent by (simp add: st1_def [symmetric])
qed

lemma goroutine_step_listed:
  "lister st \<noteq> ListCall \<Longrightarrow> lister (goroutine_step task info st t) \<noteq> ListCall"
  by (cases t)
     (auto simp: informer_step_def lister_step_def
        split: prod.splits signal.splits lister.splits list.splits sum.splits if_splits)

lemma watch_after_listed:
  "lister st \<noteq> ListCall \<Longrightarrow> lister (watch_after task info st ts) \<noteq> ListCall"
proof (induction ts arbitrary: st)
  case Nil
  then show ?case by (simp add: watch_after_Nil)
next
  case (Cons t ts)
  from Cons.IH [OF goroutine_step_listed [OF Cons.prems]] show ?case
    by (simp add: watch_after_Cons)
qed

lemma watch_loop_lists:
  assumes "watch_loop task info (Lister # ts) d (watch_init info tr) = (r, st)"
  shows "list_calls (drop (length tr) (calls st)) = [Namespace info]"
proof -
  let ?st0 = "watch_init info tr"
  let ?st1 = "goroutine_step task info ?st0 Lister"
  have init: "lister ?st0 = ListCall" "listerSend ?st0 = None"
    by (simp_all add: watch_init_def)
  have l1: "lister ?st1 \<noteq> ListCall"
    by (simp add: lister_step_def watch_init_def split: sum.splits)
  from assms have "watch_loop task info ts d ?st1 = (r, st)" by simp
  from watch_loop_first_receive [OF this] obtain pre where
    "st = watch_after task info ?st1 pre" by blast
  then have st: "st = watch_after task info ?st0 (Lister # pre)"
    by (simp add: watch_after_Cons)
  with l1 have "lister st \<noteq> ListCall"
    by (simp add: watch_after_Cons watch_after_listed)
  with watch_after_calls [OF init, of task info "Lister # pre"] st
  obtain extra where "calls st = calls ?st0 @ extra" "list_calls extra = [Namespace info]"
    by auto
  then show ?thesis by (simp add: watch_init_def)
qed

lemmas eval_defs = Exec_def GetObjInfo_def job_eng_def job_info_def check_task_def sched_def
  watchPods_def watch_init_def informer_step_def lister_step_def verifyPod_def verifyLabels_def checkPods_def
  NewSyncMap_def SyncMap_Set_def SyncMap_Get_def SyncMap_Delete_def SyncMap_Size_def
  cluster1_def cluster2_def pod_a_def pod_b_def pod_c_def node_a_def node_b_def
  PodRunning_def index_map_def BaseTask_ID_def ctx_Err_def

section \<open>Facts about the factory and the driver\<close>

lemma run_tasks_shape:
  assumes "run_tasks eng tasks s tr = (r, s', tr')"
  shows "(r = None \<and> tr' = tr @ map (\<lambda>cfg. RunTaskCall cfg None) tasks)
       \<or> (\<exists>i e. i < length tasks \<and> r = Some e
             \<and> tr' = tr @ map (\<lambda>cfg. RunTaskCall cfg None) (take i tasks)
                       @ [RunTaskCall (tasks ! i) (Some e)])"
  using assms
proof (induction tasks arbitrary: s tr)
  case Nil
  then show ?case by simp
next
  case (Cons cfg rest)
  obtain r1 s1 where step: "RunTask eng s cfg = (r1, s1)" by (metis surj_pair)
  show ?case
  proof (cases r1)
    case (Some err)
    with Cons.prems step have "r = Some err" and "tr' = tr @ [RunTaskCall cfg (Some err)]"
      by auto
    then have "0 < length (cfg # rest) \<and> r = Some err
        \<and> tr' = tr @ map (\<lambda>cfg. RunTaskCall cfg None) (take 0 (cfg # rest))
                  @ [RunTaskCall ((cfg # rest) ! 0) (Some err)]"
      by simp
    then show ?thesis by blast
  next
    case None
    with Cons.prems step have
      "run_tasks eng rest s1 (tr @ [RunTaskCall cfg None]) = (r, s', tr')" by simp
    from Cons.IH [OF this] show ?thesis
    proof
      assume "r = None \<and> tr' = (tr @ [RunTaskCall cfg None]) @ map (\<lambda>cfg. RunTaskCall cfg None) rest"
      then show ?thesis by simp
    next
      assume "\<exists>i e. i < length rest \<and> r = Some e
             \<and> tr' = (tr @ [RunTaskCall cfg None]) @ map (\<lambda>cfg. RunTaskCall cfg None) (take i rest)
                       @ [RunTaskCall (rest ! i) (Some e)]"
      then obtain i e where "i < length rest" "r = Some e"
        "tr' = (tr @ [RunTaskCall cfg None]) @ map (\<lambda>cfg. RunTaskCall cfg None) (take i rest)
                       @ [RunTaskCall (rest ! i) (Some e)]" by blast
      then have "Suc i < length (cfg # rest) \<and> r = Some e
        \<and> tr' = tr @ map (\<lambda>cfg. RunTaskCall cfg None) (take (Suc i) (cfg # rest))
                  @ [RunTaskCall ((cfg # rest) ! Suc i) (Some e)]"
        by simp
      then show ?thesis by blast
    qed
  qed
qed

lemma filter_is_reset_map: "filter is_reset (map (\<lambda>cfg. RunTaskCall cfg None) xs) = []"
  by (induction xs) simp_all

lemma triple_collapse: "x = (fst x, fst (snd x), snd (snd x))"
  by simp

lemmas task_kind_defs = TaskSubmitObj_def TaskUpdateObj_def TaskCheckObj_def TaskDeleteObj_def
  TaskUpdateNodes_def TaskCheckPod_def TaskSleep_def TaskPause_def

lemma GetTask_SubmitObj:
  "Type cfg = TaskSubmitObj \<Longrightarrow>
     GetTask C eng cfg = map_sum id SubmitObjTask (newSubmitObjTask C (dynamicClient eng) cfg)"
  by (simp add: GetTask_def split: sum.splits)

lemma GetTask_UpdateObj:
  "Type cfg = TaskUpdateObj \<Longrightarrow>
     GetTask C eng cfg =
       (case newUpdateObjTask C (dynamicClient eng) cfg of
          Inl err \<Rightarrow> Inl err
        | Inr task \<Rightarrow>
            if objMap eng (task_RefTaskID C task) = None
            then Inl (UnreferencedTaskID (task_ID C task) (task_RefTaskID C task))
            else Inr (UpdateObjTask task))"
  by (simp add: GetTask_def task_kind_defs split: sum.splits option.splits)

lemma GetTask_CheckObj:
  "Type cfg = TaskCheckObj \<Longrightarrow>
     GetTask C eng cfg =
       (case newCheckObjTask C (dynamicClient eng) cfg of
          Inl err \<Rightarrow> Inl err
        | Inr task \<Rightarrow>
            if objMap eng (task_RefTaskID C task) = None
            then Inl (UnreferencedTaskID (task_ID C task) (task_RefTaskID C task))
            else Inr (CheckObjTask task))"
  by (simp add: GetTask_def task_kind_defs split: sum.splits option.splits)

lemma GetTask_DeleteObj:
  "Type cfg = TaskDeleteObj \<Longrightarrow>
     GetTask C eng cfg =
       (case newDeleteObjTask C (dynamicClient eng) cfg of
          Inl err \<Rightarrow> Inl err
        | Inr task \<Rightarrow>
            if objMap eng (task_RefTaskID C task) = None
            then Inl (UnreferencedTaskID (task_ID C task) (task_RefTaskID C task))
            else Inr (DeleteObjTask task))"
  by (simp add: GetTask_def task_kind_defs split: sum.splits option.splits)

lemma GetTask_CheckPod:
  "Type cfg = TaskCheckPod \<Longrightarrow>
     GetTask C eng cfg =
       (case newCheckPodTask (yamlUnmarshal C) (k8sClient eng) cfg of
          Inl err \<Rightarrow> Inl err
        | Inr task \<Rightarrow>
            if objMap eng (RefTaskID (params task)) = None
            then Inl (UnreferencedTaskID (BaseTask_ID (base task)) (RefTaskID (params task)))
            else Inr (CheckPodRunnable task))"
  by (simp add: GetTask_def task_kind_defs split: sum.splits option.splits)

lemma GetTask_unsupported:
  "Type cfg \<notin> set task_kinds \<Longrightarrow> GetTask C eng cfg = Inl (UnsupportedTaskType (Type cfg))"
  by (simp add: GetTask_def task_kinds_def)

lemma newCheckPodTask_valid:
  assumes "cl = Some k" and "unmarshal (Params cfg) = Inr p" and "RefTaskID p \<noteq> []"
    and "Status p \<noteq> [] \<or> NodeLabels p \<noteq> []"
  shows "newCheckPodTask unmarshal cl cfg =
           Inr \<lparr>base = \<lparr>taskType = Type cfg, taskID = ID cfg\<rparr>, params = p, client = k\<rparr>"
  using assms by (auto simp: newCheckPodTask_def validate_def)

lemmas factory_defs = GetTask_def task_kind_defs task_kinds_def ctors0_def ref_task_def
  decode_params_def descr_def raw0_def newCheckPodTask_def validate_def zero_params_def
  BaseTask_ID_def Eng_RunTask_def execRunnable_def

section \<open>CheckPod: watch mode, verification of a delivered pod\<close>

text \<open>
  C1 has every delivered pod whose name is in the remaining set verified for its phase
  being the expected status before it is removed. The code does not do so: \<^verbatim>\<open>verifyPod\<close>
  reads the phase for the log only and goes on to the labels. A pending pod whose name is
  in the remaining set is removed from it by a task that expects \<open>Running\<close>, and the task
  succeeds on that single event, where the single-shot check of the same pod reports the
  mismatch.
\<close>

theorem verifyPod_ignores_phase:
  "verifyPod (check_task ''Running'' [] 5) [''j0-test-2''] (PodObj pod_c) [] = (Signal None, [], [])
   \<and> Phase pod_c = ''Pending''
   \<and> Status (params (check_task ''Running'' [] 5)) = ''Running''
   \<and> Exec (job_eng [''j0-test-2'']) (check_task ''Running'' [] 5)
        (sched [Informer (PodObj pod_c), Receive FromInformer] DeadlineExpired) []
       = (None, [CallAddEventHandler, CallInformerRun])
   \<and> fst (Exec (job_eng [''j0-test-2'']) (check_task ''Running'' [] 0)
        (sched [Informer (PodObj pod_c)] DeadlineExpired) [])
       = Some (StatusMismatch ''CheckPod/status'' ''j0-test-2'' ''Pending'' ''Running'')"
  by (simp add: eval_defs)

section \<open>CheckPod: the single-shot check\<close>

text \<open>
  What a single-shot check does. It makes exactly the calls of the pods it fetches, in the
  order of the referenced record: the pods that pass, up to and including the first that
  does not, one Get each, every Get of a pod followed by the Get of its host node when
  the pod has the expected phase, is running and labels are required. The fetched pods are
  a prefix of the expected pods, and all of them when the task succeeds. The task succeeds
  exactly when every expected pod passes, where the labels of a node are compared by
  indexing its label map. Otherwise the error is the one of the first pod that does not
  pass, and no later pod is fetched.
\<close>

lemma checkPods_single_pass:
  "snd (checkPods task info tr) =
     tr @ concat (map (calls_for task (Namespace info)) (fetched task (Namespace info) (Pods info)))
   \<and> pod_gets (snd (checkPods task info tr)) =
       pod_gets tr @ map (Pair (Namespace info)) (fetched task (Namespace info) (Pods info))
   \<and> (\<exists>k \<le> length (Pods info). fetched task (Namespace info) (Pods info) = take k (Pods info))
   \<and> (fst (checkPods task info tr) = None
        \<longleftrightarrow> list_all (pod_passes task (Namespace info)) (Pods info))
   \<and> (fst (checkPods task info tr) = None
        \<longrightarrow> fetched task (Namespace info) (Pods info) = Pods info)
   \<and> (\<forall>name rest. dropWhile (pod_passes task (Namespace info)) (Pods info) = name # rest \<longrightarrow>
        fetched task (Namespace info) (Pods info)
          = takeWhile (pod_passes task (Namespace info)) (Pods info) @ [name]
        \<and> (\<exists>e. fst (checkPods task info tr) = Some e \<and> reports task (Namespace info) name e))"
proof (intro conjI allI impI)
  show "snd (checkPods task info tr) =
     tr @ concat (map (calls_for task (Namespace info)) (fetched task (Namespace info) (Pods info)))"
    by (simp add: checkPods_def checkPods_loop_snd)
  then show "pod_gets (snd (checkPods task info tr)) =
       pod_gets tr @ map (Pair (Namespace info)) (fetched task (Namespace info) (Pods info))"
    by (simp add: pod_gets_append pod_gets_concat_calls_for)
  show "\<exists>k \<le> length (Pods info). fetched task (Namespace info) (Pods info) = take k (Pods info)"
    unfolding fetched_def by (rule fetched_prefix)
  show "fst (checkPods task info tr) = None
        \<longleftrightarrow> list_all (pod_passes task (Namespace info)) (Pods info)"
    by (simp add: checkPods_def checkPods_loop_fst)
  show "fetched task (Namespace info) (Pods info) = Pods info"
    if "fst (checkPods task info tr) = None"
    using that fetched_all [of "pod_passes task (Namespace info)" "Pods info"]
    by (simp add: checkPods_def checkPods_loop_fst fetched_def)
next
  fix name rest
  assume dw: "dropWhile (pod_passes task (Namespace info)) (Pods info) = name # rest"
  then show "fetched task (Namespace info) (Pods info)
          = takeWhile (pod_passes task (Namespace info)) (Pods info) @ [name]"
    by (simp add: fetched_def)
  note conv = dropWhile_eq_Cons_conv [THEN iffD1, OF dw]
  from conv have bad: "\<not> pod_passes task (Namespace info) name" by (rule conjunct2)
  from conv have split:
    "Pods info = takeWhile (pod_passes task (Namespace info)) (Pods info) @ name # rest"
    by (rule conjunct1)
  have pre: "list_all (pod_passes task (Namespace info))
          (takeWhile (pod_passes task (Namespace info)) (Pods info))"
    unfolding list_all_iff by (blast dest: set_takeWhileD)
  have "checkPods_loop task (Namespace info)
          (takeWhile (pod_passes task (Namespace info)) (Pods info) @ name # rest) tr =
      checkPods_loop task (Namespace info) (name # rest)
        (tr @ concat (map (calls_for task (Namespace info))
           (takeWhile (pod_passes task (Namespace info)) (Pods info))))"
    using pre by (rule checkPods_loop_skip)
  with split have "checkPods task info tr =
      checkPods_loop task (Namespace info) (name # rest)
        (tr @ concat (map (calls_for task (Namespace info))
           (takeWhile (pod_passes task (Namespace info)) (Pods info))))"
    unfolding checkPods_def by metis
  then show "\<exists>e. fst (checkPods task info tr) = Some e \<and> reports task (Namespace info) name e"
    using checkPods_loop_head_reports [OF bad] by (simp del: checkPods_loop.simps)
qed

text \<open>
  C2 has the check assert that every required label/value pair is present on the host
  node of a running pod. The order of the Gets, the assertion on the phase, the fetch of
  the node and the stop at the first failure are as the claim says, but the comparison of
  \<^verbatim>\<open>verifyLabels\<close> misses one case: it indexes the label map of the node, where an absent
  label reads as the empty string. A running pod on a node without labels passes a check
  that requires the label \<open>nodeType\<close> with the empty value, although the node is without
  that label, which is what the error message of the code reports in every other case.
\<close>

theorem checkPods_accepts_missing_label:
  "fst (checkPods (check_task ''Running'' [(''nodeType'', [])] 0) (job_info [''j0-test-1'']) [])
     = None
   \<and> PodsGet cluster1 ''default'' ''j0-test-1'' = Inr pod_b
   \<and> Phase pod_b = PodRunning
   \<and> NodesGet cluster1 (NodeName pod_b) = Inr node_b
   \<and> \<not> labels_present [(''nodeType'', [])] node_b"
  by (simp add: checkPods_def check_task_def job_info_def cluster1_def pod_b_def node_b_def
      PodRunning_def verifyLabels_def index_map_def labels_present_def)

section \<open>The driver\<close>

text \<open>
  C3. For every engine and every task list, the driver runs the tasks in the order of the
  list and stops at the first that fails: its log is either one successful call per task,
  in order, or the successful calls of the tasks before some position, the failed call of
  the task at that position, and nothing of the tasks after it. In both cases the log ends
  with the call of reset, which occurs exactly once. The result is the error of the
  failed task whenever a task failed, whatever reset returned, and the result of reset
  otherwise. The \<^verbatim>\<open>RunTask\<close> of the engine fails with the error of the factory when
  construction fails, without executing anything, and otherwise returns what executing
  the task returns; its reset never fails.
\<close>

theorem Run_contract:
  assumes "Run eng tasks s = (r, s', tr)"
  shows "(\<exists>errReset.
           ((r = errReset
             \<and> tr = map (\<lambda>cfg. RunTaskCall cfg None) tasks @ [ResetCall errReset])
            \<or> (\<exists>i e. i < length tasks \<and> r = Some e
                 \<and> tr = map (\<lambda>cfg. RunTaskCall cfg None) (take i tasks)
                         @ [RunTaskCall (tasks ! i) (Some e), ResetCall errReset]))
           \<and> length (filter is_reset tr) = 1
           \<and> last tr = ResetCall errReset)
       \<and> (\<forall>err. GetTask C (fst st) cfg = Inl err \<longrightarrow>
             RunTask (Eng_Engine C exec) st cfg = (Some err, st))
       \<and> (\<forall>rn. GetTask C (fst st) cfg = Inr rn \<longrightarrow>
             RunTask (Eng_Engine C exec) st cfg = exec rn st)
       \<and> Reset (Eng_Engine C exec) st = (None, st)"
proof (intro conjI)
  obtain errExec s1 tr1 where rt: "run_tasks eng tasks s [] = (errExec, s1, tr1)"
    by (metis prod_cases3)
  obtain errReset s2 where rs: "Reset eng s1 = (errReset, s2)" by (metis surj_pair)
  from assms rt rs have r: "r = (if errExec \<noteq> None then errExec else errReset)"
    and tr: "tr = tr1 @ [ResetCall errReset]"
    by (simp_all add: Run_def)
  from run_tasks_shape [OF rt] show "\<exists>errReset.
           ((r = errReset
             \<and> tr = map (\<lambda>cfg. RunTaskCall cfg None) tasks @ [ResetCall errReset])
            \<or> (\<exists>i e. i < length tasks \<and> r = Some e
                 \<and> tr = map (\<lambda>cfg. RunTaskCall cfg None) (take i tasks)
                         @ [RunTaskCall (tasks ! i) (Some e), ResetCall errReset]))
           \<and> length (filter is_reset tr) = 1
           \<and> last tr = ResetCall errReset"
  proof
    assume "errExec = None \<and> tr1 = [] @ map (\<lambda>cfg. RunTaskCall cfg None) tasks"
    with r tr show ?thesis by (simp add: filter_is_reset_map)
  next
    assume "\<exists>i e. i < length tasks \<and> errExec = Some e
             \<and> tr1 = [] @ map (\<lambda>cfg. RunTaskCall cfg None) (take i tasks)
                       @ [RunTaskCall (tasks ! i) (Some e)]"
    then obtain i e where "i < length tasks" "errExec = Some e"
      "tr1 = map (\<lambda>cfg. RunTaskCall cfg None) (take i tasks) @ [RunTaskCall (tasks ! i) (Some e)]"
      by auto
    with r tr have "(\<exists>i e. i < length tasks \<and> r = Some e
                 \<and> tr = map (\<lambda>cfg. RunTaskCall cfg None) (take i tasks)
                         @ [RunTaskCall (tasks ! i) (Some e), ResetCall errReset])
           \<and> length (filter is_reset tr) = 1
           \<and> last tr = ResetCall errReset"
      by (auto simp: filter_is_reset_map)
    then show ?thesis by blast
  qed
  show "\<forall>err. GetTask C (fst st) cfg = Inl err \<longrightarrow>
           RunTask (Eng_Engine C exec) st cfg = (Some err, st)"
    by (simp add: Eng_Engine_def Eng_RunTask_def)
  show "\<forall>rn. GetTask C (fst st) cfg = Inr rn \<longrightarrow>
           RunTask (Eng_Engine C exec) st cfg = exec rn st"
    by (auto simp: Eng_Engine_def Eng_RunTask_def execRunnable_def split: prod.splits option.splits)
  show "Reset (Eng_Engine C exec) st = (None, st)"
    by (simp add: Eng_Engine_def Eng_Reset_def)
qed

theorem Run_contract_witness:
  "Run counting_engine [named ''a'', named ''bad'', named ''c''] 0
     = (Some (External ''boom''), 2,
        [RunTaskCall (named ''a'') None, RunTaskCall (named ''bad'') (Some (External ''boom'')),
         ResetCall (Some (External ''reset failed''))])
   \<and> Run counting_engine [named ''a'', named ''c''] 0
     = (Some (External ''reset failed''), 2,
        [RunTaskCall (named ''a'') None, RunTaskCall (named ''c'') None,
         ResetCall (Some (External ''reset failed''))])
   \<and> Run (Eng_Engine ctors0 (\<lambda>r s. (None, s)))
        [descr ''SubmitObj'' raw0, descr ''DeleteObj'' raw0, descr ''Sleep'' raw0] (empty_eng, ())
     = (Some (UnreferencedTaskID ''DeleteObj/t1'' ''job''), (empty_eng, ()),
        [RunTaskCall (descr ''SubmitObj'' raw0) None,
         RunTaskCall (descr ''DeleteObj'' raw0) (Some (UnreferencedTaskID ''DeleteObj/t1'' ''job'')),
         ResetCall None])"
  using Run_contract [OF triple_collapse, where eng = counting_engine
          and tasks = "[named ''a'', named ''bad'', named ''c'']" and s = 0]
        Run_contract [OF triple_collapse, where eng = counting_engine
          and tasks = "[named ''a'', named ''c'']" and s = 0]
        Run_contract [OF triple_collapse, where eng = "Eng_Engine ctors0 (\<lambda>r s. (None, s))"
          and tasks = "[descr ''SubmitObj'' raw0, descr ''DeleteObj'' raw0, descr ''Sleep'' raw0]"
          and s = "(empty_eng, ())"]
  by (simp add: Run_def counting_engine_def named_def Eng_Engine_def Eng_Reset_def factory_defs
      empty_eng_def)

section \<open>CheckPod: exits of the watch\<close>

text \<open>
  C4, as the specification has it, fails on the code: when the initial List fails, the
  lister sends the failure on \<^verbatim>\<open>errs\<close> and the task ends with it. The error is none of
  success, a verification error, the deadline or the cancellation.
\<close>

theorem watchPods_list_failure_counterexample:
  "fst (watchPods ((check_task ''Running'' [] 5)\<lparr>client := cluster2\<rparr>) (job_info [''j0-test-0''])
         (sched [Lister, Receive FromLister] DeadlineExpired) [])
     = Some (FailedToListPods ''CheckPod/status'' ''forbidden'')
   \<and> \<not> is_verification_error (FailedToListPods ''CheckPod/status'' ''forbidden'')
   \<and> FailedToListPods ''CheckPod/status'' ''forbidden'' \<noteq> DeadlineExceeded
   \<and> FailedToListPods ''CheckPod/status'' ''forbidden'' \<noteq> Canceled"
  by (simp add: eval_defs)

text \<open>
  C4, amended. A watch ends in exactly one of these ways: with success, and then the
  remaining set is empty; with the error \<^verbatim>\<open>verifyPod\<close> sends for an object that was
  delivered, by an event or as an item of the List; with the failure of the initial List,
  after the lister made its call; with the failure of registering the event handlers,
  whenever that fails; with \<open>DeadlineExceeded\<close> when the context ended by its deadline;
  with \<open>Canceled\<close> when it was cancelled. The remaining set never leaves the expected
  pods.

  Which of them: when the handlers are registered, the result is the value the main loop
  receives at the first tick at which it receives from a goroutine whose send is pending,
  and the state is the one the goroutines have reached by then; when there is no such
  tick, the result is the error of the context, also when the remaining set has been
  emptied meanwhile. A pending send of a goroutine is the first value that goroutine
  sent: the one \<^verbatim>\<open>verifyPod\<close> signalled for the event or item handled at that tick, or
  the failure of the List. In particular a failed List that is received is the result;
  what \<^verbatim>\<open>verifyPod\<close> signals for the first event, or for the first item of the List, is
  the result when it is received next; and a run in which the main loop receives nothing
  ends with the error of the context.
\<close>

theorem watchPods_exits:
  assumes "watchPods task info sch tr = (r, st)"
  shows "((r = None \<and> SyncMap_Size (podMap st) = 0)
          \<or> (\<exists>e ob m tr0. r = Some e \<and> is_verification_error e
                \<and> delivered task info (ticks sch) ob \<and> set m \<subseteq> set (Pods info)
                \<and> fst (verifyPod task m ob tr0) = Signal (Some e))
          \<or> (\<exists>msg. r = Some (FailedToListPods (BaseTask_ID (base task)) msg)
                \<and> PodsList (client task) (Namespace info) = Inl msg \<and> Lister \<in> set (ticks sch))
          \<or> (\<exists>msg. r = Some (External msg) \<and> addHandlerErr sch = Some msg)
          \<or> (r = Some DeadlineExceeded \<and> ctxDone sch = DeadlineExpired)
          \<or> (r = Some Canceled \<and> ctxDone sch = Cancelled))
       \<and> set (podMap st) \<subseteq> set (Pods info)
       \<and> (\<forall>msg. addHandlerErr sch = Some msg \<longrightarrow> r = Some (External msg))
       \<and> (addHandlerErr sch = None \<longrightarrow>
            (\<exists>n v. n < length (ticks sch)
               \<and> receive (watch_after task info (watch_init info tr) (take n (ticks sch)))
                   (ticks sch ! n) = Some v
               \<and> (\<forall>k<n. receive (watch_after task info (watch_init info tr) (take k (ticks sch)))
                           (ticks sch ! k) = None)
               \<and> r = v \<and> st = watch_after task info (watch_init info tr) (take n (ticks sch)))
            \<or> ((\<forall>n<length (ticks sch).
                    receive (watch_after task info (watch_init info tr) (take n (ticks sch)))
                      (ticks sch ! n) = None)
               \<and> r = Some (ctx_Err (ctxDone sch))
               \<and> st = watch_after task info (watch_init info tr) (ticks sch)))
       \<and> (\<forall>ts v. informerSend (watch_after task info (watch_init info tr) ts) = Some v \<longrightarrow>
            (\<exists>k ob. informer_sends task info (watch_init info tr) ts k ob v))
       \<and> (\<forall>ts v. listerSend (watch_after task info (watch_init info tr) ts) = Some v \<longrightarrow>
            (\<exists>k. lister_sends task info (watch_init info tr) ts k v))
       \<and> (\<forall>msg rest. addHandlerErr sch = None
            \<and> ticks sch = Lister # Receive FromLister # rest
            \<and> PodsList (client task) (Namespace info) = Inl msg \<longrightarrow>
            r = Some (FailedToListPods (BaseTask_ID (base task)) msg))
       \<and> (\<forall>ob v rest. addHandlerErr sch = None
            \<and> ticks sch = Informer ob # Receive FromInformer # rest
            \<and> fst (verifyPod task (podMap (watch_init info tr)) ob (calls (watch_init info tr)))
                = Signal v \<longrightarrow>
            r = v)
       \<and> (\<forall>item items v rest. addHandlerErr sch = None
            \<and> ticks sch = Lister # Lister # Receive FromLister # rest
            \<and> PodsList (client task) (Namespace info) = Inr (item # items)
            \<and> Pods info \<noteq> []
            \<and> fst (verifyPod task (podMap (watch_init info tr)) (PodObj item)
                     (calls (watch_init info tr) @ [CallPodsList (Namespace info)]))
                = Signal v \<longrightarrow>
            r = v)
       \<and> (addHandlerErr sch = None \<and> (\<forall>src. Receive src \<notin> set (ticks sch)) \<longrightarrow>
            r = Some (ctx_Err (ctxDone sch))
            \<and> st = watch_after task info (watch_init info tr) (ticks sch))"
proof -
  have handler: "r = Some (External msg)" if "addHandlerErr sch = Some msg" for msg
    using assms that by (simp add: watchPods_def)
  have handler_map: "podMap st = podMap (watch_init info tr)" if "addHandlerErr sch = Some msg" for msg
    using assms that by (auto simp: watchPods_def)
  have loop: "watch_loop task info (ticks sch) (ctxDone sch) (watch_init info tr) = (r, st)"
    if "addHandlerErr sch = None"
    using assms that by (simp add: watchPods_def)
  have exits: "(r = None \<and> SyncMap_Size (podMap st) = 0)
          \<or> (\<exists>e ob m tr0. r = Some e \<and> is_verification_error e
                \<and> delivered task info (ticks sch) ob \<and> set m \<subseteq> set (Pods info)
                \<and> fst (verifyPod task m ob tr0) = Signal (Some e))
          \<or> (\<exists>msg. r = Some (FailedToListPods (BaseTask_ID (base task)) msg)
                \<and> PodsList (client task) (Namespace info) = Inl msg \<and> Lister \<in> set (ticks sch))
          \<or> (\<exists>msg. r = Some (External msg) \<and> addHandlerErr sch = Some msg)
          \<or> (r = Some DeadlineExceeded \<and> ctxDone sch = DeadlineExpired)
          \<or> (r = Some Canceled \<and> ctxDone sch = Cancelled)"
  proof (cases "addHandlerErr sch")
    case (Some msg)
    with handler [OF Some] show ?thesis by simp
  next
    case None
    from watch_loop_sound [OF loop [OF None]]
    have "(r = None \<and> podMap st = [])
          \<or> (\<exists>e ob m tr0. r = Some e \<and> is_verification_error e
                \<and> delivered task info (ticks sch) ob \<and> set m \<subseteq> set (Pods info)
                \<and> fst (verifyPod task m ob tr0) = Signal (Some e))
          \<or> (\<exists>msg. r = Some (FailedToListPods (BaseTask_ID (base task)) msg)
                \<and> PodsList (client task) (Namespace info) = Inl msg \<and> Lister \<in> set (ticks sch))
          \<or> (r = Some DeadlineExceeded \<and> ctxDone sch = DeadlineExpired)
          \<or> (r = Some Canceled \<and> ctxDone sch = Cancelled)"
      by (rule conjunct1)
    then show ?thesis
      unfolding SyncMap_Size_def length_0_conv by (elim disjE) (rule disjI1, assumption,
        (rule disjI2, rule disjI1, assumption),
        (rule disjI2, rule disjI2, rule disjI1, assumption),
        (rule disjI2, rule disjI2, rule disjI2, rule disjI2, rule disjI1, assumption),
        (rule disjI2, rule disjI2, rule disjI2, rule disjI2, rule disjI2, assumption))
  qed
  have sub: "set (podMap st) \<subseteq> set (Pods info)"
  proof (cases "addHandlerErr sch")
    case (Some msg)
    from handler_map [OF Some] show ?thesis by (simp add: watch_init_podMap)
  next
    case None
    from watch_loop_sound [OF loop [OF None]] show ?thesis by (rule conjunct2)
  qed
  have first: "(\<exists>n v. n < length (ticks sch)
               \<and> receive (watch_after task info (watch_init info tr) (take n (ticks sch)))
                   (ticks sch ! n) = Some v
               \<and> (\<forall>k<n. receive (watch_after task info (watch_init info tr) (take k (ticks sch)))
                           (ticks sch ! k) = None)
               \<and> r = v \<and> st = watch_after task info (watch_init info tr) (take n (ticks sch)))
            \<or> ((\<forall>n<length (ticks sch).
                    receive (watch_after task info (watch_init info tr) (take n (ticks sch)))
                      (ticks sch ! n) = None)
               \<and> r = Some (ctx_Err (ctxDone sch))
               \<and> st = watch_after task info (watch_init info tr) (ticks sch))"
    if "addHandlerErr sch = None"
    using loop [OF that] by (rule watch_loop_first_receive)
  have init: "informerSend (watch_init info tr) = None" "listerSend (watch_init info tr) = None"
    by (simp_all add: watch_init_def)
  have inf: "\<exists>k ob. informer_sends task info (watch_init info tr) ts k ob v"
    if "informerSend (watch_after task info (watch_init info tr) ts) = Some v" for ts v
    using init(1) that by (rule informerSend_origin)
  have lst: "\<exists>k. lister_sends task info (watch_init info tr) ts k v"
    if "listerSend (watch_after task info (watch_init info tr) ts) = Some v" for ts v
    using init(2) that by (rule listerSend_origin)
  have d1: "r = Some (FailedToListPods (BaseTask_ID (base task)) msg)"
    if "addHandlerErr sch = None
            \<and> ticks sch = Lister # Receive FromLister # rest
            \<and> PodsList (client task) (Namespace info) = Inl msg" for msg rest
  proof -
    from that loop have "watch_loop task info (Lister # Receive FromLister # rest) (ctxDone sch)
        (watch_init info tr) = (r, st)" by simp
    moreover from that have "PodsList (client task) (Namespace info) = Inl msg" by simp
    ultimately show ?thesis
      using watch_loop_list_failure [of task info msg rest "ctxDone sch" tr] by simp
  qed
  have d2: "r = v"
    if "addHandlerErr sch = None
            \<and> ticks sch = Informer ob # Receive FromInformer # rest
            \<and> fst (verifyPod task (podMap (watch_init info tr)) ob (calls (watch_init info tr)))
                = Signal v" for ob v rest
  proof -
    from that loop have "watch_loop task info (Informer ob # Receive FromInformer # rest) (ctxDone sch)
        (watch_init info tr) = (r, st)" by simp
    moreover from that have "fst (verifyPod task (podMap (watch_init info tr)) ob
        (calls (watch_init info tr))) = Signal v" by simp
    ultimately show ?thesis
      using watch_loop_first_event [of task info tr ob v rest "ctxDone sch"] by simp
  qed
  have d3: "r = v"
    if "addHandlerErr sch = None
            \<and> ticks sch = Lister # Lister # Receive FromLister # rest
            \<and> PodsList (client task) (Namespace info) = Inr (item # items)
            \<and> Pods info \<noteq> []
            \<and> fst (verifyPod task (podMap (watch_init info tr)) (PodObj item)
                     (calls (watch_init info tr) @ [CallPodsList (Namespace info)]))
                = Signal v" for item items v rest
  proof -
    from that loop have "watch_loop task info (Lister # Lister # Receive FromLister # rest)
        (ctxDone sch) (watch_init info tr) = (r, st)" by simp
    moreover from that have "PodsList (client task) (Namespace info) = Inr (item # items)"
      and "Pods info \<noteq> []"
      and "fst (verifyPod task (podMap (watch_init info tr)) (PodObj item)
             (calls (watch_init info tr) @ [CallPodsList (Namespace info)])) = Signal v"
      by simp_all
    ultimately show ?thesis
      using watch_loop_first_item [of task info item items tr v rest "ctxDone sch"] by simp
  qed
  have d4: "r = Some (ctx_Err (ctxDone sch))
            \<and> st = watch_after task info (watch_init info tr) (ticks sch)"
    if "addHandlerErr sch = None \<and> (\<forall>src. Receive src \<notin> set (ticks sch))"
  proof -
    from that have none: "addHandlerErr sch = None" and nr: "\<forall>src. Receive src \<notin> set (ticks sch)"
      by simp_all
    from watch_loop_no_receive [OF nr, of task info "ctxDone sch" "watch_init info tr"] loop [OF none]
    show ?thesis by simp
  qed
  from exits sub handler first inf lst d1 d2 d3 d4 show ?thesis by blast
qed

theorem watchPods_exits_witness:
  "fst (watchPods (check_task ''Running'' [(''nodeType'', ''gpu'')] 5) (job_info [''j0-test-0''])
         (sched [Lister, Lister, Receive FromLister] DeadlineExpired) []) = None
   \<and> podMap (snd (watchPods (check_task ''Running'' [(''nodeType'', ''gpu'')] 5) (job_info [''j0-test-0''])
         (sched [Lister, Lister, Receive FromLister] DeadlineExpired) [])) = []
   \<and> fst (watchPods (check_task ''Running'' [(''nodeType'', ''gpu'')] 5) (job_info [''j0-test-0''])
         (sched [Lister, Lister] DeadlineExpired) []) = Some DeadlineExceeded
   \<and> podMap (snd (watchPods (check_task ''Running'' [(''nodeType'', ''gpu'')] 5) (job_info [''j0-test-0''])
         (sched [Lister, Lister] DeadlineExpired) [])) = []
   \<and> fst (watchPods (check_task ''Running'' [(''nodeType'', ''gpu'')] 5) (job_info [''j0-test-0''])
         (sched [Lister] Cancelled) []) = Some Canceled
   \<and> fst (watchPods (check_task ''Running'' [(''nodeType'', ''gpu'')] 5) (job_info [''j0-test-1''])
         (sched [Informer (PodObj pod_b), Receive FromInformer] DeadlineExpired) [])
       = Some (MissingLabel ''CheckPod/status'' ''j0-test-1'' ''node-b'' ''nodeType'' ''gpu'')
   \<and> fst (watchPods ((check_task ''Running'' [] 5)\<lparr>client := cluster2\<rparr>) (job_info [''j0-test-0''])
         (sched [Lister, Receive FromLister] DeadlineExpired) [])
       = Some (FailedToListPods ''CheckPod/status'' ''forbidden'')"
proof -
  have run: "fst (watchPods (check_task ''Running'' [(''nodeType'', ''gpu'')] 5) (job_info [''j0-test-0''])
           (sched [Lister, Lister, Receive FromLister] DeadlineExpired) []) = None
     \<and> podMap (snd (watchPods (check_task ''Running'' [(''nodeType'', ''gpu'')] 5) (job_info [''j0-test-0''])
           (sched [Lister, Lister, Receive FromLister] DeadlineExpired) [])) = []
     \<and> fst (watchPods (check_task ''Running'' [(''nodeType'', ''gpu'')] 5) (job_info [''j0-test-0''])
           (sched [Lister, Lister] DeadlineExpired) []) = Some DeadlineExceeded
     \<and> podMap (snd (watchPods (check_task ''Running'' [(''nodeType'', ''gpu'')] 5) (job_info [''j0-test-0''])
           (sched [Lister, Lister] DeadlineExpired) [])) = []
     \<and> fst (watchPods (check_task ''Running'' [(''nodeType'', ''gpu'')] 5) (job_info [''j0-test-0''])
           (sched [Lister] Cancelled) []) = Some Canceled
     \<and> fst (watchPods (check_task ''Running'' [(''nodeType'', ''gpu'')] 5) (job_info [''j0-test-1''])
           (sched [Informer (PodObj pod_b), Receive FromInformer] DeadlineExpired) [])
         = Some (MissingLabel ''CheckPod/status'' ''j0-test-1'' ''node-b'' ''nodeType'' ''gpu'')
     \<and> fst (watchPods ((check_task ''Running'' [] 5)\<lparr>client := cluster2\<rparr>) (job_info [''j0-test-0''])
           (sched [Lister, Receive FromLister] DeadlineExpired) [])
         = Some (FailedToListPods ''CheckPod/status'' ''forbidden'')"
    by (simp add: eval_defs)
  show ?thesis
    using
      watchPods_exits [OF prod.collapse [symmetric], where task = "check_task ''Running'' [(''nodeType'', ''gpu'')] 5"
        and info = "job_info [''j0-test-0'']"
        and sch = "sched [Lister, Lister, Receive FromLister] DeadlineExpired" and tr = "[]"]
      watchPods_exits [OF prod.collapse [symmetric], where task = "check_task ''Running'' [(''nodeType'', ''gpu'')] 5"
        and info = "job_info [''j0-test-0'']"
        and sch = "sched [Lister, Lister] DeadlineExpired" and tr = "[]"]
      watchPods_exits [OF prod.collapse [symmetric], where task = "check_task ''Running'' [(''nodeType'', ''gpu'')] 5"
        and info = "job_info [''j0-test-0'']"
        and sch = "sched [Lister] Cancelled" and tr = "[]"]
      watchPods_exits [OF prod.collapse [symmetric], where task = "check_task ''Running'' [(''nodeType'', ''gpu'')] 5"
        and info = "job_info [''j0-test-1'']"
        and sch = "sched [Informer (PodObj pod_b), Receive FromInformer] DeadlineExpired" and tr = "[]"]
      watchPods_exits [OF prod.collapse [symmetric], where task = "(check_task ''Running'' [] 5)\<lparr>client := cluster2\<rparr>"
        and info = "job_info [''j0-test-0'']"
        and sch = "sched [Lister, Receive FromLister] DeadlineExpired" and tr = "[]"]
    by (rule_tac run)
qed

section \<open>CheckPod: the List comes after the subscription\<close>

text \<open>
  C9. In every watch the call that registers the Add and Update handlers is the first
  call, and it is made once; when it fails nothing else is called; otherwise the informer
  is started next, and the List of the namespace is called after both, at most once, and
  is called whenever the lister takes the first step. On every timeline of the calls of a
  watch and the pod creations of the cluster on which the List is called, every creation
  is seen by the stream or by the List: a creation before the registration comes before
  the List call, and a creation after the registration, so also one between the
  registration and the List call, is seen by the stream.
\<close>

theorem List_after_subscription:
  assumes "watchPods task info sch tr = (r, st)"
  shows "(\<forall>msg. addHandlerErr sch = Some msg \<longrightarrow> calls st = tr @ [CallAddEventHandler])
       \<and> (addHandlerErr sch = None \<longrightarrow>
            (\<exists>rest. calls st = tr @ CallAddEventHandler # CallInformerRun # rest
               \<and> CallAddEventHandler \<notin> set rest \<and> CallInformerRun \<notin> set rest
               \<and> (list_calls rest = [] \<or> list_calls rest = [Namespace info])))
       \<and> (\<forall>rest. addHandlerErr sch = None \<and> ticks sch = Lister # rest \<longrightarrow>
            list_calls (drop (length tr) (calls st)) = [Namespace info])
       \<and> (\<forall>line name. task_calls line = drop (length tr) (calls st)
            \<and> Call (CallPodsList (Namespace info)) \<in> set line
            \<and> PodCreated name \<in> set line \<longrightarrow>
            name \<in> set (seen_by_stream line) \<or> name \<in> set (seen_by_list (Namespace info) line))"
proof (intro conjI allI impI)
  fix msg assume "addHandlerErr sch = Some msg"
  with assms show "calls st = tr @ [CallAddEventHandler]"
    by (auto simp: watchPods_def)
next
  assume "addHandlerErr sch = None"
  with assms have "watch_loop task info (ticks sch) (ctxDone sch) (watch_init info tr) = (r, st)"
    by (simp add: watchPods_def)
  then show "\<exists>rest. calls st = tr @ CallAddEventHandler # CallInformerRun # rest
               \<and> CallAddEventHandler \<notin> set rest \<and> CallInformerRun \<notin> set rest
               \<and> (list_calls rest = [] \<or> list_calls rest = [Namespace info])"
    by (rule watch_loop_calls)
next
  fix rest assume "addHandlerErr sch = None \<and> ticks sch = Lister # rest"
  with assms have "watch_loop task info (Lister # rest) (ctxDone sch) (watch_init info tr) = (r, st)"
    by (simp add: watchPods_def)
  then show "list_calls (drop (length tr) (calls st)) = [Namespace info]"
    by (rule watch_loop_lists)
next
  fix line name
  assume a: "task_calls line = drop (length tr) (calls st)
            \<and> Call (CallPodsList (Namespace info)) \<in> set line
            \<and> PodCreated name \<in> set line"
  have "\<exists>rest. drop (length tr) (calls st) = CallAddEventHandler # rest"
  proof (cases "addHandlerErr sch")
    case (Some msg)
    with assms show ?thesis by (auto simp: watchPods_def)
  next
    case None
    with assms have "watch_loop task info (ticks sch) (ctxDone sch) (watch_init info tr) = (r, st)"
      by (simp add: watchPods_def)
    from watch_loop_calls [OF this] show ?thesis by auto
  qed
  then obtain rest where "task_calls line = CallAddEventHandler # rest" using a by auto
  from timeline_coverage [OF this] a
  show "name \<in> set (seen_by_stream line) \<or> name \<in> set (seen_by_list (Namespace info) line)"
    by blast
qed

theorem List_after_subscription_witness:
  "calls (snd (watchPods (check_task ''Running'' [(''nodeType'', ''gpu'')] 5) (job_info [''j0-test-0''])
         (sched [Lister, Lister, Receive FromLister] DeadlineExpired) []))
     = [CallAddEventHandler, CallInformerRun, CallPodsList ''default'', CallNodesGet ''node-a'']
   \<and> task_calls timeline1
     = [CallAddEventHandler, CallInformerRun, CallPodsList ''default'', CallNodesGet ''node-a'']
   \<and> seen_by_list ''default'' timeline1 = [''early'', ''between'']
   \<and> seen_by_stream timeline1 = [''between'', ''late'']"
proof -
  have run: "calls (snd (watchPods (check_task ''Running'' [(''nodeType'', ''gpu'')] 5) (job_info [''j0-test-0''])
           (sched [Lister, Lister, Receive FromLister] DeadlineExpired) []))
       = [CallAddEventHandler, CallInformerRun, CallPodsList ''default'', CallNodesGet ''node-a'']
     \<and> task_calls timeline1
       = [CallAddEventHandler, CallInformerRun, CallPodsList ''default'', CallNodesGet ''node-a'']
     \<and> seen_by_list ''default'' timeline1 = [''early'', ''between'']
     \<and> seen_by_stream timeline1 = [''between'', ''late'']"
    by (simp add: eval_defs timeline1_def seen_by_list_def seen_by_stream_def)
  show ?thesis
    using List_after_subscription [OF prod.collapse [symmetric],
      where task = "check_task ''Running'' [(''nodeType'', ''gpu'')] 5"
        and info = "job_info [''j0-test-0'']"
        and sch = "sched [Lister, Lister, Receive FromLister] DeadlineExpired" and tr = "[]"]
    by (rule_tac run)
qed

section \<open>The factory\<close>

text \<open>
  C5, as the specification has it, fails on the code: the constructor validates the
  parameters before the factory consults the registry. A CheckPod descriptor that refers
  to an unregistered identifier and gives neither status nor labels fails with the
  validation error, not with the unreferenced-identifier error.
\<close>

theorem GetTask_validation_first_counterexample:
  "objMap empty_eng ''job'' = None
   \<and> raw_refTaskId (Params (descr ''CheckPod'' raw0)) = Given ''job''
   \<and> GetTask ctors0 empty_eng (descr ''CheckPod'' raw0)
       = Inl (MissingStatusAndLabels ''CheckPod/t1'')
   \<and> GetTask ctors0 empty_eng (descr ''CheckPod'' raw0)
       \<noteq> Inl (UnreferencedTaskID ''CheckPod/t1'' ''job'')"
  by (simp add: factory_defs job_eng_def empty_eng_def)

text \<open>
  C5, amended. For a descriptor of kind UpdateObj, CheckObj, DeleteObj or CheckPod, the
  factory returns a task only if the identifier the task refers to is registered. When
  the constructor of the task fails, the factory fails with the error of the constructor,
  whatever the registry holds; for CheckPod these are the missing client, the parameters
  that do not decode, the empty reference, and the absence of both status and labels, in
  this order. When the constructor succeeds, the factory returns the constructed task if
  the identifier is registered and fails with the unreferenced-identifier error
  otherwise; for CheckPod the constructor succeeds on a descriptor whose parameters
  decode, with a non-empty reference and a status or labels, on an engine with a client.
  An error of the factory is returned by \<^verbatim>\<open>RunTask\<close> with the state unchanged, whatever
  executing would do. A SubmitObj descriptor yields what its constructor yields, whatever
  the registry holds. A descriptor whose type is none of the eight kinds is rejected.
\<close>

theorem GetTask_references:
  "(\<forall>r. Type cfg \<in> {TaskUpdateObj, TaskCheckObj, TaskDeleteObj, TaskCheckPod}
        \<and> GetTask C eng cfg = Inr r \<longrightarrow>
        (\<exists>ref. referenced C r = Some ref \<and> objMap eng ref \<noteq> None))
   \<and> (\<forall>t. Type cfg = TaskUpdateObj \<and> newUpdateObjTask C (dynamicClient eng) cfg = Inr t \<longrightarrow>
        GetTask C eng cfg =
          (if objMap eng (task_RefTaskID C t) = None
           then Inl (UnreferencedTaskID (task_ID C t) (task_RefTaskID C t))
           else Inr (UpdateObjTask t)))
   \<and> (\<forall>t. Type cfg = TaskCheckObj \<and> newCheckObjTask C (dynamicClient eng) cfg = Inr t \<longrightarrow>
        GetTask C eng cfg =
          (if objMap eng (task_RefTaskID C t) = None
           then Inl (UnreferencedTaskID (task_ID C t) (task_RefTaskID C t))
           else Inr (CheckObjTask t)))
   \<and> (\<forall>t. Type cfg = TaskDeleteObj \<and> newDeleteObjTask C (dynamicClient eng) cfg = Inr t \<longrightarrow>
        GetTask C eng cfg =
          (if objMap eng (task_RefTaskID C t) = None
           then Inl (UnreferencedTaskID (task_ID C t) (task_RefTaskID C t))
           else Inr (DeleteObjTask t)))
   \<and> (\<forall>k p. Type cfg = TaskCheckPod \<and> k8sClient eng = Some k
        \<and> yamlUnmarshal C (Params cfg) = Inr p \<and> RefTaskID p \<noteq> []
        \<and> (Status p \<noteq> [] \<or> NodeLabels p \<noteq> []) \<longrightarrow>
        GetTask C eng cfg =
          (if objMap eng (RefTaskID p) = None
           then Inl (UnreferencedTaskID (Type cfg @ ''/'' @ ID cfg) (RefTaskID p))
           else Inr (CheckPodRunnable
                  \<lparr>base = \<lparr>taskType = Type cfg, taskID = ID cfg\<rparr>, params = p, client = k\<rparr>)))
   \<and> (\<forall>err. GetTask C eng cfg = Inl err \<longrightarrow>
        Eng_RunTask C exec (eng, w) cfg = (Some err, (eng, w)))
   \<and> (Type cfg = TaskSubmitObj \<longrightarrow>
        GetTask C eng cfg = map_sum id SubmitObjTask (newSubmitObjTask C (dynamicClient eng) cfg)
        \<and> GetTask C (eng\<lparr>objMap := m\<rparr>) cfg = GetTask C eng cfg)
   \<and> (Type cfg \<notin> set task_kinds \<longrightarrow> GetTask C eng cfg = Inl (UnsupportedTaskType (Type cfg)))
   \<and> (\<forall>err. Type cfg = TaskUpdateObj \<and> newUpdateObjTask C (dynamicClient eng) cfg = Inl err \<longrightarrow>
        GetTask C eng cfg = Inl err)
   \<and> (\<forall>err. Type cfg = TaskCheckObj \<and> newCheckObjTask C (dynamicClient eng) cfg = Inl err \<longrightarrow>
        GetTask C eng cfg = Inl err)
   \<and> (\<forall>err. Type cfg = TaskDeleteObj \<and> newDeleteObjTask C (dynamicClient eng) cfg = Inl err \<longrightarrow>
        GetTask C eng cfg = Inl err)
   \<and> (\<forall>err. Type cfg = TaskCheckPod
        \<and> newCheckPodTask (yamlUnmarshal C) (k8sClient eng) cfg = Inl err \<longrightarrow>
        GetTask C eng cfg = Inl err)
   \<and> (Type cfg = TaskCheckPod \<and> k8sClient eng = None \<longrightarrow>
        GetTask C eng cfg = Inl (ClientNotSet (Type cfg) (ID cfg)))
   \<and> (\<forall>k msg. Type cfg = TaskCheckPod \<and> k8sClient eng = Some k
        \<and> yamlUnmarshal C (Params cfg) = Inl msg \<longrightarrow>
        GetTask C eng cfg = Inl (ParseParams (Type cfg @ ''/'' @ ID cfg) msg))
   \<and> (\<forall>k p. Type cfg = TaskCheckPod \<and> k8sClient eng = Some k
        \<and> yamlUnmarshal C (Params cfg) = Inr p \<and> RefTaskID p = [] \<longrightarrow>
        GetTask C eng cfg = Inl (MissingRefTaskId (Type cfg @ ''/'' @ ID cfg)))
   \<and> (\<forall>k p. Type cfg = TaskCheckPod \<and> k8sClient eng = Some k
        \<and> yamlUnmarshal C (Params cfg) = Inr p \<and> RefTaskID p \<noteq> []
        \<and> Status p = [] \<and> NodeLabels p = [] \<longrightarrow>
        GetTask C eng cfg = Inl (MissingStatusAndLabels (Type cfg @ ''/'' @ ID cfg)))"
proof (intro conjI allI impI)
  fix r
  assume a: "Type cfg \<in> {TaskUpdateObj, TaskCheckObj, TaskDeleteObj, TaskCheckPod}
        \<and> GetTask C eng cfg = Inr r"
  then consider "Type cfg = TaskUpdateObj" | "Type cfg = TaskCheckObj"
    | "Type cfg = TaskDeleteObj" | "Type cfg = TaskCheckPod" by blast
  then show "\<exists>ref. referenced C r = Some ref \<and> objMap eng ref \<noteq> None"
  proof cases
    case 1
    with a show ?thesis
      by (auto simp: GetTask_UpdateObj split: sum.splits if_splits)
  next
    case 2
    with a show ?thesis
      by (auto simp: GetTask_CheckObj split: sum.splits if_splits)
  next
    case 3
    with a show ?thesis
      by (auto simp: GetTask_DeleteObj split: sum.splits if_splits)
  next
    case 4
    with a show ?thesis
      by (auto simp: GetTask_CheckPod split: sum.splits if_splits)
  qed
next
  fix t assume "Type cfg = TaskUpdateObj \<and> newUpdateObjTask C (dynamicClient eng) cfg = Inr t"
  then show "GetTask C eng cfg =
          (if objMap eng (task_RefTaskID C t) = None
           then Inl (UnreferencedTaskID (task_ID C t) (task_RefTaskID C t))
           else Inr (UpdateObjTask t))"
    by (simp add: GetTask_UpdateObj)
next
  fix t assume "Type cfg = TaskCheckObj \<and> newCheckObjTask C (dynamicClient eng) cfg = Inr t"
  then show "GetTask C eng cfg =
          (if objMap eng (task_RefTaskID C t) = None
           then Inl (UnreferencedTaskID (task_ID C t) (task_RefTaskID C t))
           else Inr (CheckObjTask t))"
    by (simp add: GetTask_CheckObj)
next
  fix t assume "Type cfg = TaskDeleteObj \<and> newDeleteObjTask C (dynamicClient eng) cfg = Inr t"
  then show "GetTask C eng cfg =
          (if objMap eng (task_RefTaskID C t) = None
           then Inl (UnreferencedTaskID (task_ID C t) (task_RefTaskID C t))
           else Inr (DeleteObjTask t))"
    by (simp add: GetTask_DeleteObj)
next
  fix k p
  assume a: "Type cfg = TaskCheckPod \<and> k8sClient eng = Some k
        \<and> yamlUnmarshal C (Params cfg) = Inr p \<and> RefTaskID p \<noteq> []
        \<and> (Status p \<noteq> [] \<or> NodeLabels p \<noteq> [])"
  then have "newCheckPodTask (yamlUnmarshal C) (k8sClient eng) cfg =
           Inr \<lparr>base = \<lparr>taskType = Type cfg, taskID = ID cfg\<rparr>, params = p, client = k\<rparr>"
    by (intro newCheckPodTask_valid) simp_all
  with a show "GetTask C eng cfg =
          (if objMap eng (RefTaskID p) = None
           then Inl (UnreferencedTaskID (Type cfg @ ''/'' @ ID cfg) (RefTaskID p))
           else Inr (CheckPodRunnable
                  \<lparr>base = \<lparr>taskType = Type cfg, taskID = ID cfg\<rparr>, params = p, client = k\<rparr>))"
    by (simp add: GetTask_CheckPod BaseTask_ID_def)
next
  fix err assume "GetTask C eng cfg = Inl err"
  then show "Eng_RunTask C exec (eng, w) cfg = (Some err, (eng, w))"
    by (simp add: Eng_RunTask_def)
next
  assume s: "Type cfg = TaskSubmitObj"
  then show "GetTask C eng cfg
      = map_sum id SubmitObjTask (newSubmitObjTask C (dynamicClient eng) cfg)"
    by (rule GetTask_SubmitObj)
  from s show "GetTask C (eng\<lparr>objMap := m\<rparr>) cfg = GetTask C eng cfg"
    by (simp add: GetTask_SubmitObj)
next
  assume "Type cfg \<notin> set task_kinds"
  then show "GetTask C eng cfg = Inl (UnsupportedTaskType (Type cfg))"
    by (rule GetTask_unsupported)
next
  fix err assume "Type cfg = TaskUpdateObj \<and> newUpdateObjTask C (dynamicClient eng) cfg = Inl err"
  then show "GetTask C eng cfg = Inl err" by (simp add: GetTask_UpdateObj)
next
  fix err assume "Type cfg = TaskCheckObj \<and> newCheckObjTask C (dynamicClient eng) cfg = Inl err"
  then show "GetTask C eng cfg = Inl err" by (simp add: GetTask_CheckObj)
next
  fix err assume "Type cfg = TaskDeleteObj \<and> newDeleteObjTask C (dynamicClient eng) cfg = Inl err"
  then show "GetTask C eng cfg = Inl err" by (simp add: GetTask_DeleteObj)
next
  fix err assume "Type cfg = TaskCheckPod
        \<and> newCheckPodTask (yamlUnmarshal C) (k8sClient eng) cfg = Inl err"
  then show "GetTask C eng cfg = Inl err" by (simp add: GetTask_CheckPod)
next
  assume "Type cfg = TaskCheckPod \<and> k8sClient eng = None"
  then show "GetTask C eng cfg = Inl (ClientNotSet (Type cfg) (ID cfg))"
    by (simp add: GetTask_CheckPod newCheckPodTask_def)
next
  fix k msg assume "Type cfg = TaskCheckPod \<and> k8sClient eng = Some k
        \<and> yamlUnmarshal C (Params cfg) = Inl msg"
  then show "GetTask C eng cfg = Inl (ParseParams (Type cfg @ ''/'' @ ID cfg) msg)"
    by (simp add: GetTask_CheckPod newCheckPodTask_def validate_def BaseTask_ID_def)
next
  fix k p assume "Type cfg = TaskCheckPod \<and> k8sClient eng = Some k
        \<and> yamlUnmarshal C (Params cfg) = Inr p \<and> RefTaskID p = []"
  then show "GetTask C eng cfg = Inl (MissingRefTaskId (Type cfg @ ''/'' @ ID cfg))"
    by (simp add: GetTask_CheckPod newCheckPodTask_def validate_def BaseTask_ID_def)
next
  fix k p assume "Type cfg = TaskCheckPod \<and> k8sClient eng = Some k
        \<and> yamlUnmarshal C (Params cfg) = Inr p \<and> RefTaskID p \<noteq> []
        \<and> Status p = [] \<and> NodeLabels p = []"
  then show "GetTask C eng cfg = Inl (MissingStatusAndLabels (Type cfg @ ''/'' @ ID cfg))"
    by (simp add: GetTask_CheckPod newCheckPodTask_def validate_def BaseTask_ID_def)
qed

theorem GetTask_references_witness:
  "GetTask ctors0 empty_eng
       (descr ''CheckPod'' (raw0\<lparr>raw_status := Given ''Running''\<rparr>))
     = Inl (UnreferencedTaskID ''CheckPod/t1'' ''job'')
   \<and> GetTask ctors0 (job_eng []) (descr ''CheckPod'' (raw0\<lparr>raw_status := Given ''Running''\<rparr>))
     = Inr (CheckPodRunnable \<lparr>base = \<lparr>taskType = ''CheckPod'', taskID = ''t1''\<rparr>,
             params = \<lparr>RefTaskID = ''job'', Status = ''Running'', NodeLabels = [], Timeout = 0\<rparr>,
             client = cluster1\<rparr>)
   \<and> GetTask ctors0 empty_eng (descr ''DeleteObj'' raw0)
     = Inl (UnreferencedTaskID ''DeleteObj/t1'' ''job'')
   \<and> GetTask ctors0 (job_eng []) (descr ''DeleteObj'' raw0) = Inr (DeleteObjTask (''DeleteObj/t1'', ''job''))
   \<and> GetTask ctors0 empty_eng (descr ''SubmitObj'' raw0)
     = Inr (SubmitObjTask (''SubmitObj/t1'', []))
   \<and> GetTask ctors0 (job_eng []) (descr ''Launch'' raw0) = Inl (UnsupportedTaskType ''Launch'')
   \<and> GetTask ctors0 (job_eng []) (descr ''CheckPod'' raw0)
     = Inl (MissingStatusAndLabels ''CheckPod/t1'')
   \<and> GetTask ctors0 (job_eng []) (descr ''CheckPod'' (raw0\<lparr>raw_refTaskId := Absent\<rparr>))
     = Inl (MissingRefTaskId ''CheckPod/t1'')
   \<and> Eng_RunTask ctors0 (\<lambda>r s. (None, s)) (empty_eng, ())
        (descr ''DeleteObj'' raw0)
     = (Some (UnreferencedTaskID ''DeleteObj/t1'' ''job''), (empty_eng, ()))"
  using GetTask_references [where C = ctors0 and eng = "empty_eng"
          and cfg = "descr ''CheckPod'' (raw0\<lparr>raw_status := Given ''Running''\<rparr>)"]
        GetTask_references [where C = ctors0 and eng = "job_eng []"
          and cfg = "descr ''CheckPod'' (raw0\<lparr>raw_status := Given ''Running''\<rparr>)"]
        GetTask_references [where C = ctors0 and eng = "empty_eng"
          and cfg = "descr ''DeleteObj'' raw0" and exec = "\<lambda>r s. (None, s)" and w = "()"]
        GetTask_references [where C = ctors0 and eng = "job_eng []"
          and cfg = "descr ''DeleteObj'' raw0"]
        GetTask_references [where C = ctors0 and eng = "empty_eng"
          and cfg = "descr ''SubmitObj'' raw0"]
        GetTask_references [where C = ctors0 and eng = "job_eng []"
          and cfg = "descr ''Launch'' raw0"]
        GetTask_references [where C = ctors0 and eng = "job_eng []"
          and cfg = "descr ''CheckPod'' raw0"]
        GetTask_references [where C = ctors0 and eng = "job_eng []"
          and cfg = "descr ''CheckPod'' (raw0\<lparr>raw_refTaskId := Absent\<rparr>)"]
  by (simp add: factory_defs job_eng_def empty_eng_def)

section \<open>The registry\<close>

text \<open>
  C6. Setting an identifier that is already registered fails with the duplicate-ID error
  and leaves the engine as it was; setting a fresh identifier succeeds and stores the
  entry, changing nothing else. Getting fails, with the missing-ID error, exactly when the
  identifier is absent, and otherwise returns the stored record.
\<close>

theorem registry_set_get:
  "(objMap eng tid \<noteq> None \<longrightarrow> SetObjInfo eng tid info = (Some (DuplicateTaskID tid), eng))
   \<and> (objMap eng tid = None \<longrightarrow>
        SetObjInfo eng tid info = (None, eng\<lparr>objMap := (objMap eng)(tid \<mapsto> info)\<rparr>)
        \<and> objMap (snd (SetObjInfo eng tid info)) tid = Some info
        \<and> (\<forall>k. k \<noteq> tid \<longrightarrow> objMap (snd (SetObjInfo eng tid info)) k = objMap eng k))
   \<and> (isl (GetObjInfo eng tid) \<longleftrightarrow> objMap eng tid = None)
   \<and> (objMap eng tid = None \<longrightarrow> GetObjInfo eng tid = Inl (MissingTaskID tid))
   \<and> (\<forall>i. objMap eng tid = Some i \<longrightarrow> GetObjInfo eng tid = Inr i)"
  by (auto simp: SetObjInfo_def GetObjInfo_def split: option.splits)

theorem registry_set_get_witness:
  "SetObjInfo eng0 ''job'' info0 = (Some (DuplicateTaskID ''job''), eng0)
   \<and> objMap (snd (SetObjInfo eng0 ''other'' info0)) ''other'' = Some info0
   \<and> objMap (snd (SetObjInfo eng0 ''other'' info0)) ''job'' = Some info0
   \<and> GetObjInfo eng0 ''other'' = Inl (MissingTaskID ''other'')
   \<and> GetObjInfo eng0 ''job'' = Inr info0"
  using registry_set_get [of eng0 "''job''" info0] registry_set_get [of eng0 "''other''" info0]
  by (simp add: eng0_def)

section \<open>CheckPod: parameter validation\<close>

text \<open>
  C7, as the specification has it, fails on the code: \<^verbatim>\<open>validate\<close> first decodes the
  parameter block and returns the error of the decoder. A block with a non-empty
  \<open>refTaskId\<close>, a status, and a timeout of the wrong type is rejected.
\<close>

theorem validate_decode_counterexample:
  "raw_refTaskId raw_bad = Given ''job''
   \<and> raw_status raw_bad = Given ''Running''
   \<and> validate decode_params task0 raw_bad
       = Inl (ParseParams ''CheckPod/status'' ''cannot unmarshal field timeout'')"
  by (simp add: raw_bad_def validate_def decode_params_def task0_def BaseTask_ID_def)

text \<open>
  C7, amended. Validation fails with the parse error when the parameter block does not
  decode. When it decodes to \<open>p\<close>: validation fails when \<open>refTaskId\<close> is empty, fails
  when \<open>status\<close> and \<open>nodeLabels\<close> are both absent, and succeeds, yielding the task
  filled with \<open>p\<close>, when \<open>refTaskId\<close> is non-empty and one of \<open>status\<close>, \<open>nodeLabels\<close>
  is given.
\<close>

theorem validate_checks:
  "(\<forall>msg. unmarshal ps = Inl msg \<longrightarrow>
      validate unmarshal task ps = Inl (ParseParams (BaseTask_ID (base task)) msg))
   \<and> (\<forall>p. unmarshal ps = Inr p \<longrightarrow>
        (RefTaskID p = [] \<longrightarrow>
           validate unmarshal task ps = Inl (MissingRefTaskId (BaseTask_ID (base task))))
        \<and> (Status p = [] \<and> NodeLabels p = [] \<longrightarrow> isl (validate unmarshal task ps))
        \<and> (RefTaskID p \<noteq> [] \<and> Status p = [] \<and> NodeLabels p = [] \<longrightarrow>
             validate unmarshal task ps = Inl (MissingStatusAndLabels (BaseTask_ID (base task))))
        \<and> (RefTaskID p \<noteq> [] \<and> (Status p \<noteq> [] \<or> NodeLabels p \<noteq> []) \<longrightarrow>
             validate unmarshal task ps = Inr (task\<lparr>params := p\<rparr>)))"
  by (auto simp: validate_def)

theorem validate_checks_witness:
  "validate decode_params task0 (raw0\<lparr>raw_refTaskId := Absent, raw_status := Given ''Running''\<rparr>)
     = Inl (MissingRefTaskId ''CheckPod/status'')
   \<and> validate decode_params task0 raw0 = Inl (MissingStatusAndLabels ''CheckPod/status'')
   \<and> validate decode_params task0 (raw0\<lparr>raw_nodeLabels := Given [(''nodeType'', ''gpu'')]\<rparr>)
     = Inr (task0\<lparr>params := zero_params\<lparr>RefTaskID := ''job'', NodeLabels := [(''nodeType'', ''gpu'')]\<rparr>\<rparr>)
   \<and> validate decode_params task0 (raw0\<lparr>raw_status := Given ''Running''\<rparr>)
     = Inr (task0\<lparr>params := zero_params\<lparr>RefTaskID := ''job'', Status := ''Running''\<rparr>\<rparr>)
   \<and> validate decode_params task0 (raw0\<lparr>raw_status := IllTyped\<rparr>)
     = Inl (ParseParams ''CheckPod/status'' ''cannot unmarshal field status'')"
  using validate_checks [of decode_params "raw0\<lparr>raw_refTaskId := Absent, raw_status := Given ''Running''\<rparr>" task0]
        validate_checks [of decode_params raw0 task0]
        validate_checks [of decode_params "raw0\<lparr>raw_nodeLabels := Given [(''nodeType'', ''gpu'')]\<rparr>" task0]
        validate_checks [of decode_params "raw0\<lparr>raw_status := Given ''Running''\<rparr>" task0]
        validate_checks [of decode_params "raw0\<lparr>raw_status := IllTyped\<rparr>" task0]
  by (simp add: raw0_def decode_params_def zero_params_def task0_def BaseTask_ID_def)

section \<open>CheckPod: execution\<close>

text \<open>
  C8. When the referenced record has no pods, the task succeeds at once and the log of
  cluster calls is unchanged: no Get, no List, no subscription, whatever the timeout and
  the schedule.
\<close>

theorem Exec_no_pods:
  assumes "GetObjInfo eng (RefTaskID (params task)) = Inr info" and "Pods info = []"
  shows "Exec eng task sch tr = (None, tr)"
  using assms by (simp add: Exec_def)

theorem Exec_no_pods_witness:
  "GetObjInfo (job_eng []) ''job'' = Inr (job_info [])
   \<and> Exec (job_eng []) (check_task ''Running'' [] 0) (sched [Lister] DeadlineExpired) [] = (None, [])
   \<and> Exec (job_eng []) (check_task ''Running'' [] 5) (sched [Lister] DeadlineExpired) [] = (None, [])"
  using Exec_no_pods [of "job_eng []" "check_task ''Running'' [] 0" "job_info []"
          "sched [Lister] DeadlineExpired" "[]"]
        Exec_no_pods [of "job_eng []" "check_task ''Running'' [] 5" "job_info []"
          "sched [Lister] DeadlineExpired" "[]"]
  by (simp add: GetObjInfo_def job_eng_def job_info_def check_task_def)

text \<open>
  C10. With no timeout and the status left out, the phase of every pod is compared with
  the empty string, whatever labels are required: the task succeeds only if every expected
  pod is found with an empty phase, it fails as soon as some expected pod is found with a
  non-empty phase, and when that pod is the first one the error is the status mismatch
  against the empty string, after one Get. Validation accepts the combination of an omitted
  status with labels.
\<close>

theorem Exec_empty_status:
  assumes "GetObjInfo eng (RefTaskID (params task)) = Inr info"
    and "Timeout (params task) = 0"
    and "Status (params task) = []"
  shows "(fst (Exec eng task sch tr) = None \<longrightarrow>
            (\<forall>name \<in> set (Pods info).
               \<exists>pod. PodsGet (client task) (Namespace info) name = Inr pod \<and> Phase pod = []))
       \<and> (\<forall>name pod. name \<in> set (Pods info)
            \<and> PodsGet (client task) (Namespace info) name = Inr pod \<and> Phase pod \<noteq> [] \<longrightarrow>
            fst (Exec eng task sch tr) \<noteq> None)
       \<and> (\<forall>name rest pod. Pods info = name # rest
            \<and> PodsGet (client task) (Namespace info) name = Inr pod \<and> Phase pod \<noteq> [] \<longrightarrow>
            Exec eng task sch tr =
              (Some (StatusMismatch (BaseTask_ID (base task)) name (Phase pod) []),
               tr @ [CallPodsGet (Namespace info) name]))
       \<and> (\<forall>p. unmarshal ps = Inr p \<and> RefTaskID p \<noteq> [] \<and> Status p = [] \<and> NodeLabels p \<noteq> [] \<longrightarrow>
            validate unmarshal t ps = Inr (t\<lparr>params := p\<rparr>))"
proof (intro conjI allI impI ballI)
  have ex: "Exec eng task sch tr = checkPods task info tr"
    using assms by (cases "Pods info") (simp_all add: Exec_def checkPods_def)
  have all: "list_all (pod_passes task (Namespace info)) (Pods info)"
    if "fst (Exec eng task sch tr) = None"
    using that ex by (simp add: checkPods_def checkPods_loop_fst)
  show "\<exists>pod. PodsGet (client task) (Namespace info) name = Inr pod \<and> Phase pod = []"
    if "fst (Exec eng task sch tr) = None" and "name \<in> set (Pods info)" for name
    using all [OF that(1)] that(2) pod_passes_phase [of task "Namespace info" name] assms(3)
    by (auto simp: list_all_iff)
  show "fst (Exec eng task sch tr) \<noteq> None"
    if "name \<in> set (Pods info)
            \<and> PodsGet (client task) (Namespace info) name = Inr pod \<and> Phase pod \<noteq> []" for name pod
  proof
    assume "fst (Exec eng task sch tr) = None"
    from all [OF this] that have "pod_passes task (Namespace info) name"
      by (auto simp: list_all_iff)
    from pod_passes_phase [OF this] that assms(3) show False by auto
  qed
  show "Exec eng task sch tr =
              (Some (StatusMismatch (BaseTask_ID (base task)) name (Phase pod) []),
               tr @ [CallPodsGet (Namespace info) name])"
    if "Pods info = name # rest
            \<and> PodsGet (client task) (Namespace info) name = Inr pod \<and> Phase pod \<noteq> []"
    for name rest pod
    using that ex assms(3) by (simp add: checkPods_def)
  show "validate unmarshal t ps = Inr (t\<lparr>params := p\<rparr>)"
    if "unmarshal ps = Inr p \<and> RefTaskID p \<noteq> [] \<and> Status p = [] \<and> NodeLabels p \<noteq> []" for p
    using that by (simp add: validate_def)
qed

theorem Exec_empty_status_witness:
  "Exec (job_eng [''j0-test-0'']) (check_task [] [(''nodeType'', ''gpu'')] 0)
      (sched [] DeadlineExpired) []
     = (Some (StatusMismatch ''CheckPod/status'' ''j0-test-0'' ''Running'' []),
        [CallPodsGet ''default'' ''j0-test-0''])
   \<and> validate Inr task0 (params (check_task [] [(''nodeType'', ''gpu'')] 0))
     = Inr (task0\<lparr>params := params (check_task [] [(''nodeType'', ''gpu'')] 0)\<rparr>)"
  using Exec_empty_status [where eng = "job_eng [''j0-test-0'']"
          and task = "check_task [] [(''nodeType'', ''gpu'')] 0"
          and info = "job_info [''j0-test-0'']" and unmarshal = Inr
          and ps = "params (check_task [] [(''nodeType'', ''gpu'')] 0)"
          and sch = "sched [] DeadlineExpired" and tr = "[]" and t = task0]
  by (simp add: eval_defs)

end
